theory Spec2Isabelle
  imports Complex_Main
begin

section \<open>Tensors and the tensor operations the learning rule calls\<close>

text \<open>
  A two-dimensional tensor carries its shape, as a torch tensor does: a tensor with zero
  rows still has a column count, and transposing a \<open>B \<times> 0\<close> tensor gives a \<open>0 \<times> B\<close> one.
  Entries are modelled as real numbers: the arithmetic of the rule is the arithmetic of
  the reals, rounding is outside the model.
\<close>

record tensor =
  nrows :: nat
  ncols :: nat
  rows :: "real list list"

definition wf_tensor :: "tensor \<Rightarrow> bool" where
  "wf_tensor T \<longleftrightarrow>
     length (rows T) = nrows T \<and> list_all (\<lambda>r. length r = ncols T) (rows T)"

definition entry :: "tensor \<Rightarrow> nat \<Rightarrow> nat \<Rightarrow> real" where
  "entry T i j = rows T ! i ! j"

datatype error =
    IndexError
  | AssertionError string
  | RuntimeError
  | ZeroDivisionError
  | TypeError
  | ValueError
  | StopIteration

text \<open>\<open>torch.t\<close>: the transpose of a two-dimensional tensor.\<close>

definition torch_t :: "tensor \<Rightarrow> tensor" where
  "torch_t T = \<lparr>nrows = ncols T, ncols = nrows T,
          rows = map (\<lambda>j. map (\<lambda>r. r ! j) (rows T)) [0..<ncols T]\<rparr>"

text \<open>Elementwise operations: \<open>torch.sign\<close>, \<open>torch.abs\<close>, \<open>**\<close> with a scalar exponent.\<close>

definition tmap :: "(real \<Rightarrow> real) \<Rightarrow> tensor \<Rightarrow> tensor" where
  "tmap f T = T\<lparr>rows := map (map f) (rows T)\<rparr>"

definition sign :: "tensor \<Rightarrow> tensor" where
  "sign T = tmap sgn T"

definition abs_t :: "tensor \<Rightarrow> tensor" where
  "abs_t T = tmap abs T"

text \<open>
  The exponent \<open>norm - 1\<close> is a Python integer and may be negative; \<open>powi\<close> is the integer
  power. Where torch gives infinity (a zero weight under a negative exponent) HOL gives 0.
\<close>

definition pow_t :: "tensor \<Rightarrow> int \<Rightarrow> tensor" where
  "pow_t T n = tmap (\<lambda>x. x powi n) T"

text \<open>
  \<open>torch.mul\<close> and \<open>-\<close> on two tensors. Every call in the rule passes two tensors of one
  shape, so broadcasting is not modelled.
\<close>

definition zip_with :: "(real \<Rightarrow> real \<Rightarrow> real) \<Rightarrow> tensor \<Rightarrow> tensor \<Rightarrow> tensor" where
  "zip_with f A B = A\<lparr>rows := map2 (map2 f) (rows A) (rows B)\<rparr>"

definition mul :: "tensor \<Rightarrow> tensor \<Rightarrow> tensor" where
  "mul A B = zip_with (*) A B"

definition sub :: "tensor \<Rightarrow> tensor \<Rightarrow> tensor" where
  "sub A B = zip_with (-) A B"

text \<open>\<open>torch.matmul\<close> on two-dimensional tensors raises when the inner sizes differ.\<close>

definition matmul :: "tensor \<Rightarrow> tensor \<Rightarrow> error + tensor" where
  "matmul A B =
     (if ncols A \<noteq> nrows B then Inl RuntimeError
      else Inr \<lparr>nrows = nrows A, ncols = ncols B,
                rows = map (\<lambda>ra. map (\<lambda>j. \<Sum>d\<leftarrow>[0..<ncols A]. ra ! d * rows B ! d ! j)
                                       [0..<ncols B]) (rows A)\<rparr>)"

text \<open>\<open>torch.zeros((n, m))\<close>.\<close>

definition zeros :: "nat \<Rightarrow> nat \<Rightarrow> tensor" where
  "zeros n m = \<lparr>nrows = n, ncols = m, rows = replicate n (replicate m 0)\<rparr>"

text \<open>
  Python indexing of the first dimension by an integer: a negative index counts from the
  end, an index out of range raises IndexError.
\<close>

definition py_index :: "'a list \<Rightarrow> int \<Rightarrow> error + 'a" where
  "py_index xs i =
     (let n = int (length xs); j = (if i < 0 then n + i else i)
      in if 0 \<le> j \<and> j < n then Inr (xs ! nat j) else Inl IndexError)"

text \<open>
  The indexed assignment \<open>A[is, js] = v\<close> with two index vectors: entry
  \<open>(is[n], js[n])\<close> is set to \<open>v\<close> for every \<open>n\<close>, in order. The rule passes one row of an
  index tensor and \<open>torch.arange(batch_size)\<close>, which have the same length; an index
  outside the tensor raises IndexError.
\<close>

definition index_put :: "tensor \<Rightarrow> nat list \<Rightarrow> nat list \<Rightarrow> real \<Rightarrow> error + tensor" where
  "index_put A is js v =
     (if length is = length js \<and> list_all (\<lambda>i. i < nrows A) is
         \<and> list_all (\<lambda>j. j < ncols A) js
      then Inr (A\<lparr>rows := fold (\<lambda>(i, j) R. R[i := (R ! i)[j := v]]) (zip is js) (rows A)\<rparr>)
      else Inl IndexError)"

text \<open>\<open>torch.sum(T, 1)\<close>: the sum of every row.\<close>

definition sum1 :: "tensor \<Rightarrow> real list" where
  "sum1 T = map sum_list (rows T)"

text \<open>\<open>xx.view(xx.shape[0], 1).repeat((1, m))\<close>: every entry of the vector repeated along a row.\<close>

definition view_repeat :: "real list \<Rightarrow> nat \<Rightarrow> tensor" where
  "view_repeat xx m = \<lparr>nrows = length xx, ncols = m, rows = map (replicate m) xx\<rparr>"

text \<open>\<open>torch.max\<close> over all entries raises on a tensor without entries.\<close>

definition max_t :: "tensor \<Rightarrow> error + real" where
  "max_t T = (case concat (rows T) of [] \<Rightarrow> Inl RuntimeError | x # xs \<Rightarrow> Inr (fold max xs x))"

text \<open>\<open>torch.true_divide\<close> by a scalar.\<close>

definition true_divide :: "tensor \<Rightarrow> real \<Rightarrow> tensor" where
  "true_divide T c = tmap (\<lambda>x. x / c) T"

section \<open>The selection routines of the tensor library\<close>

text \<open>
  \<open>torch.topk\<close> and \<open>torch.argsort\<close> belong to the tensor library, and the order they give
  to equal scores is not fixed by it. The rule is therefore modelled over any selection
  routine, passed as a parameter, and the theorems assume only the library's contract
  on the scores at hand.

  Along dimension 0 both work column by column. \<open>column\<close> reads one column of a list of rows.
\<close>

definition column :: "'a list list \<Rightarrow> nat \<Rightarrow> 'a list" where
  "column xss b = map (\<lambda>r. r ! b) xss"

text \<open>
  The contract of top-k on one column \<open>v\<close>: \<open>k\<close> distinct positions of \<open>v\<close>, by
  non-increasing value, and no position left out holds a larger value than one selected.
\<close>

definition is_topk :: "real list \<Rightarrow> nat \<Rightarrow> nat list \<Rightarrow> bool" where
  "is_topk v k idx \<longleftrightarrow>
     length idx = k \<and> distinct idx \<and> list_all (\<lambda>i. i < length v) idx
     \<and> sorted_wrt (\<lambda>a b. v ! b \<le> v ! a) idx
     \<and> list_all (\<lambda>h. h \<in> set idx \<or> list_all (\<lambda>i. v ! h \<le> v ! i) idx) [0..<length v]"

text \<open>The contract of argsort on one column: a permutation of the positions, by non-decreasing value.\<close>

definition is_argsort :: "real list \<Rightarrow> nat list \<Rightarrow> bool" where
  "is_argsort v y \<longleftrightarrow>
     length y = length v \<and> distinct y \<and> list_all (\<lambda>i. i < length v) y
     \<and> sorted_wrt (\<lambda>a b. v ! a \<le> v ! b) y"

definition topk_ok :: "tensor \<Rightarrow> nat \<Rightarrow> nat list list \<Rightarrow> bool" where
  "topk_ok T k indices \<longleftrightarrow>
     length indices = k \<and> list_all (\<lambda>r. length r = ncols T) indices
     \<and> list_all (\<lambda>b. is_topk (column (rows T) b) k (column indices b)) [0..<ncols T]"

definition argsort_ok :: "tensor \<Rightarrow> nat list list \<Rightarrow> bool" where
  "argsort_ok T y \<longleftrightarrow>
     length y = nrows T \<and> list_all (\<lambda>r. length r = ncols T) y
     \<and> list_all (\<lambda>b. is_argsort (column (rows T) b) (column y b)) [0..<ncols T]"

text \<open>No two hidden units have the same score for any sample.\<close>

definition no_ties :: "tensor \<Rightarrow> bool" where
  "no_ties T \<longleftrightarrow> list_all (\<lambda>b. distinct (column (rows T) b)) [0..<ncols T]"

section \<open>The Krotov-Hopfield learning rule\<close>

record krotovs_rule =
  precision :: real
  delta :: real
  norm_p :: int
  k :: int

text \<open>\<open>KrotovsRule.__init__\<close> stores its four arguments and checks nothing.\<close>

definition KrotovsRule_init :: "real \<Rightarrow> real \<Rightarrow> int \<Rightarrow> int \<Rightarrow> krotovs_rule" where
  "KrotovsRule_init precision' delta' norm' k' =
     \<lparr>precision = precision', delta = delta', norm_p = norm', k = k'\<rparr>"

definition assert_msg :: string where
  "assert_msg = ''The amount of hidden units should be larger or equal to k!''"

text \<open>
  Line 39 and line 72, the overlap of every hidden unit with every sample:
  \<open>torch.matmul(torch.sign(weights) * torch.abs(weights) ** (self.norm - 1), inputs)\<close>,
  where \<open>inputs\<close> is already transposed.
\<close>

definition tot_input :: "krotovs_rule \<Rightarrow> tensor \<Rightarrow> tensor \<Rightarrow> error + tensor" where
  "tot_input self inputs_t weights =
     matmul (mul (sign weights) (pow_t (abs_t weights) (norm_p self - 1))) inputs_t"

text \<open>
  Lines 42 to 47 of \<open>update\<close>: the activations from the top-k indices. \<open>torch.topk\<close>
  raises on a negative \<open>k\<close>.
\<close>

definition activations_topk ::
  "(tensor \<Rightarrow> nat \<Rightarrow> nat list list) \<Rightarrow> krotovs_rule \<Rightarrow> tensor \<Rightarrow> nat \<Rightarrow> nat
     \<Rightarrow> error + tensor" where
  "activations_topk topk self tot num_hidden_units batch_size =
     (if k self < 0 then Inl RuntimeError
      else
        let indices = topk tot (nat (k self));
            activations = zeros num_hidden_units batch_size
        in case py_index indices 0 of Inl e \<Rightarrow> Inl e | Inr first \<Rightarrow>
           (case index_put activations first [0..<batch_size] 1 of Inl e \<Rightarrow> Inl e
            | Inr activations \<Rightarrow>
            (case py_index indices (k self - 1) of Inl e \<Rightarrow> Inl e | Inr kth \<Rightarrow>
             index_put activations kth [0..<batch_size] (- delta self))))"

text \<open>Lines 75 to 80 of \<open>update_argsort\<close>: the activations from the full sort.\<close>

definition activations_argsort ::
  "(tensor \<Rightarrow> nat list list) \<Rightarrow> krotovs_rule \<Rightarrow> tensor \<Rightarrow> nat \<Rightarrow> nat \<Rightarrow> error + tensor" where
  "activations_argsort argsort self tot num_hidden_units batch_size =
     (let y = argsort tot;
          activations = zeros num_hidden_units batch_size
      in case py_index y (int num_hidden_units - 1) of Inl e \<Rightarrow> Inl e | Inr first \<Rightarrow>
         (case index_put activations first [0..<batch_size] 1 of Inl e \<Rightarrow> Inl e
          | Inr activations \<Rightarrow>
          (case py_index y (int num_hidden_units - k self) of Inl e \<Rightarrow> Inl e | Inr kth \<Rightarrow>
           index_put activations kth [0..<batch_size] (- delta self))))"

text \<open>
  Lines 50 to 54 (and 83 to 87, the same text): the raw delta \<open>ds\<close>. \<open>inputs_t\<close> is the
  transposed batch, which the code transposes back for the product.
\<close>

definition raw_delta :: "tensor \<Rightarrow> tensor \<Rightarrow> tensor \<Rightarrow> tensor \<Rightarrow> nat \<Rightarrow> error + tensor" where
  "raw_delta activations tot inputs_t weights input_size =
     (let xx = sum1 (mul activations tot);
          norm_factor = mul (view_repeat xx input_size) weights
      in case matmul activations (torch_t inputs_t) of Inl e \<Rightarrow> Inl e
         | Inr hebb \<Rightarrow> Inr (sub hebb norm_factor))"

text \<open>Lines 57 to 60 (and 90 to 93): the normalisation by the largest absolute entry.\<close>

definition normalize :: "krotovs_rule \<Rightarrow> tensor \<Rightarrow> error + tensor" where
  "normalize self ds =
     (case max_t (abs_t ds) of Inl e \<Rightarrow> Inl e
      | Inr nc \<Rightarrow>
          let nc = (if nc < precision self then precision self else nc)
          in Inr (true_divide ds nc))"

text \<open>\<open>KrotovsRule.update\<close>. \<open>inputs[0]\<close> raises IndexError on a batch without samples.\<close>

definition update ::
  "(tensor \<Rightarrow> nat \<Rightarrow> nat list list) \<Rightarrow> krotovs_rule \<Rightarrow> tensor \<Rightarrow> tensor \<Rightarrow> error + tensor" where
  "update topk self inputs weights =
     (let batch_size = nrows inputs;
          num_hidden_units = nrows weights
      in if nrows inputs = 0 then Inl IndexError
         else
           let input_size = ncols inputs;
               inputs_t = torch_t inputs
           in if \<not> k self \<le> int num_hidden_units then Inl (AssertionError assert_msg)
              else
                case tot_input self inputs_t weights of Inl e \<Rightarrow> Inl e | Inr tot \<Rightarrow>
                (case activations_topk topk self tot num_hidden_units batch_size of
                   Inl e \<Rightarrow> Inl e
                 | Inr activations \<Rightarrow>
                   (case raw_delta activations tot inputs_t weights input_size of
                      Inl e \<Rightarrow> Inl e
                    | Inr ds \<Rightarrow> normalize self ds)))"

text \<open>\<open>KrotovsRule.update_argsort\<close>.\<close>

definition update_argsort ::
  "(tensor \<Rightarrow> nat list list) \<Rightarrow> krotovs_rule \<Rightarrow> tensor \<Rightarrow> tensor \<Rightarrow> error + tensor" where
  "update_argsort argsort self inputs weights =
     (let batch_size = nrows inputs;
          num_hidden_units = nrows weights
      in if nrows inputs = 0 then Inl IndexError
         else
           let input_size = ncols inputs;
               inputs_t = torch_t inputs
           in if \<not> k self \<le> int num_hidden_units then Inl (AssertionError assert_msg)
              else
                case tot_input self inputs_t weights of Inl e \<Rightarrow> Inl e | Inr tot \<Rightarrow>
                (case activations_argsort argsort self tot num_hidden_units batch_size of
                   Inl e \<Rightarrow> Inl e
                 | Inr activations \<Rightarrow>
                   (case raw_delta activations tot inputs_t weights input_size of
                      Inl e \<Rightarrow> Inl e
                    | Inr ds \<Rightarrow> normalize self ds)))"

text \<open>
  Two selection routines that meet the contracts, used to run the rule on concrete
  tensors: both keep the positions of equal scores in increasing order (a stable sort).
\<close>

definition topk_stable :: "tensor \<Rightarrow> nat \<Rightarrow> nat list list" where
  "topk_stable T n =
     (let cols = map (\<lambda>b. take n (sort_key (\<lambda>h. - (rows T ! h ! b)) [0..<nrows T]))
                     [0..<ncols T]
      in map (\<lambda>j. map (\<lambda>c. c ! j) cols) [0..<n])"

definition argsort_stable :: "tensor \<Rightarrow> nat list list" where
  "argsort_stable T =
     (let cols = map (\<lambda>b. sort_key (\<lambda>h. rows T ! h ! b) [0..<nrows T]) [0..<ncols T]
      in map (\<lambda>j. map (\<lambda>c. c ! j) cols) [0..<nrows T])"

section \<open>The learning-rate schedule\<close>

text \<open>
  \<open>torch.optim.lr_scheduler.LambdaLR\<close> over one parameter group. Its constructor takes the
  initial step: \<open>last_epoch\<close> is 0 and the learning rate is \<open>base_lr * lr_lambda(0)\<close>.
  \<open>step\<close> increments \<open>last_epoch\<close> and sets the learning rate to
  \<open>base_lr * lr_lambda(last_epoch)\<close>; \<open>get_last_lr\<close> returns the rate last set.
\<close>

record lambda_lr =
  base_lr :: real
  lr_lambda :: "int \<Rightarrow> real"
  last_epoch :: int
  last_lr :: real

definition LambdaLR_init :: "real \<Rightarrow> (int \<Rightarrow> real) \<Rightarrow> lambda_lr" where
  "LambdaLR_init lr f = \<lparr>base_lr = lr, lr_lambda = f, last_epoch = 0, last_lr = lr * f 0\<rparr>"

definition scheduler_step :: "lambda_lr \<Rightarrow> lambda_lr" where
  "scheduler_step sch =
     sch\<lparr>last_epoch := last_epoch sch + 1,
         last_lr := base_lr sch * lr_lambda sch (last_epoch sch + 1)\<rparr>"

definition get_last_lr :: "lambda_lr \<Rightarrow> real" where
  "get_last_lr sch = last_lr sch"

text \<open>
  Line 54 of \<open>main\<close>: \<open>lr_lambda=lambda epoch: 1 - epoch / epochs\<close>. The constructor calls
  the lambda at once, so \<open>epochs = 0\<close> raises ZeroDivisionError there.
\<close>

definition main_lr_lambda :: "int \<Rightarrow> int \<Rightarrow> real" where
  "main_lr_lambda epochs epoch = 1 - real_of_int epoch / real_of_int epochs"

definition main_lr_scheduler :: "real \<Rightarrow> int \<Rightarrow> error + lambda_lr" where
  "main_lr_scheduler lr epochs =
     (if epochs = 0 then Inl ZeroDivisionError
      else Inr (LambdaLR_init lr (main_lr_lambda epochs)))"

section \<open>The Hebbian engine\<close>

text \<open>
  The engine hands values to the rule that are either torch tensors or numpy arrays, and
  the functions of torch accept only the former. A value is modelled with its kind.
\<close>

datatype array =
    Tensor tensor
  | Ndarray tensor

fun contents :: "array \<Rightarrow> tensor" where
  "contents (Tensor x) = x"
| "contents (Ndarray x) = x"

text \<open>
  \<open>KrotovsRule.update\<close> as Python runs it on arguments of either kind. Both kinds have a
  \<open>shape\<close> and an item \<open>inputs[0]\<close> (lines 32 to 34); \<open>torch.t\<close> (line 35) and
  \<open>torch.sign\<close> (line 39) raise TypeError on a numpy array; on two torch tensors the
  method is \<open>update\<close> above, and what it returns is a torch tensor.
\<close>

definition update_call ::
  "(tensor \<Rightarrow> nat \<Rightarrow> nat list list) \<Rightarrow> krotovs_rule \<Rightarrow> array \<Rightarrow> array \<Rightarrow> error + array" where
  "update_call topk self inputs weights =
     (if nrows (contents inputs) = 0 then Inl IndexError
      else
        case inputs of
          Ndarray x \<Rightarrow> Inl TypeError
        | Tensor x \<Rightarrow>
            if \<not> k self \<le> int (nrows (contents weights))
            then Inl (AssertionError assert_msg)
            else (case weights of
                    Ndarray w \<Rightarrow> Inl TypeError
                  | Tensor w \<Rightarrow>
                      (case update topk self x w of
                         Inl e \<Rightarrow> Inl e
                       | Inr d_w \<Rightarrow> Inr (Tensor d_w))))"

text \<open>
  A batch as the data loader yields it: the tuple \<open>inputs.size()\<close>, and the entries, one
  row per sample. The labels are only counted for the log and are left out.
\<close>

record batch =
  dims :: "nat list"
  samples :: tensor

text \<open>
  Line 24, \<open>np.reshape(inputs.squeeze(), (inputs.shape[0], -1))\<close>: numpy cannot infer the
  length \<open>-1\<close> stands for when the batch has no samples, and raises ValueError; otherwise
  the result has one row per sample and is handed back as a torch tensor.
\<close>

definition np_reshape :: "batch \<Rightarrow> error + array" where
  "np_reshape inputs =
     (if nrows (samples inputs) = 0 then Inl ValueError
      else Inr (Tensor (samples inputs)))"

text \<open>\<open>torch.from_numpy\<close> raises TypeError on anything but a numpy array.\<close>

definition from_numpy :: "array \<Rightarrow> error + tensor" where
  "from_numpy a = (case a of Tensor x \<Rightarrow> Inl TypeError | Ndarray x \<Rightarrow> Inr x)"

text \<open>
  The engine's state: the weight of the model's first child (the linear layer that is
  trained, as in the model \<open>main\<close> builds), the schedule, and the calls made to the
  collaborators, in order. The optimizer's \<open>local_step\<close>, the engine's \<open>eval\<close> and
  \<open>checkpoint\<close> and the visualizer are not among the sources: \<open>local_step\<close> and \<open>eval\<close>
  are parameters of the model (any function of the learning rate, the delta and the
  weight; any function of the weight), the visualizer is present or absent, and every
  call is recorded as an event.
\<close>

datatype 'stats event =
    GetLastLr real
  | LocalStep
  | SchedulerStep
  | Eval nat
  | Checkpoint nat "'stats option"
  | VisualizeWeights nat
  | AddScalar real nat

record 'stats engine =
  weight :: tensor
  lr_scheduler :: lambda_lr
  events :: "'stats event list"

text \<open>
  \<open>HebbianEngine._train_step\<close>, lines 24 to 27: the batch is flattened, the weight is
  handed to the rule as a numpy array (\<open>weight.detach().numpy()\<close>), the result goes
  through \<open>torch.from_numpy\<close> to \<open>local_step\<close>. An exception leaves before \<open>local_step\<close>.
\<close>

definition train_step ::
  "(tensor \<Rightarrow> nat \<Rightarrow> nat list list) \<Rightarrow> krotovs_rule \<Rightarrow> (real \<Rightarrow> tensor \<Rightarrow> tensor \<Rightarrow> tensor)
     \<Rightarrow> batch \<Rightarrow> 'stats engine \<Rightarrow> error option \<times> 'stats engine" where
  "train_step topk learning_rule local_step inputs s =
     (case np_reshape inputs of
        Inl e \<Rightarrow> (Some e, s)
      | Inr inputs \<Rightarrow>
          let weights_np = Ndarray (weight s)
          in (case update_call topk learning_rule inputs weights_np of
                Inl e \<Rightarrow> (Some e, s)
              | Inr d_w \<Rightarrow>
                  (case from_numpy d_w of
                     Inl e \<Rightarrow> (Some e, s)
                   | Inr d_p \<Rightarrow>
                       (None,
                        s\<lparr>weight := local_step (get_last_lr (lr_scheduler s)) d_p (weight s),
                          events := events s @ [LocalStep]\<rparr>))))"

text \<open>
  Lines 65 to 70: the loop over the batches of one epoch. \<open>step\<close> is
  \<open>epoch_step + progress_bar.n\<close>, the number of batches taken before this one.
\<close>

fun train_batches ::
  "(tensor \<Rightarrow> nat \<Rightarrow> nat list list) \<Rightarrow> krotovs_rule \<Rightarrow> (real \<Rightarrow> tensor \<Rightarrow> tensor \<Rightarrow> tensor)
     \<Rightarrow> bool \<Rightarrow> nat \<Rightarrow> batch list \<Rightarrow> 'stats engine \<Rightarrow> error option \<times> 'stats engine" where
  "train_batches topk learning_rule local_step visualizer step [] s = (None, s)"
| "train_batches topk learning_rule local_step visualizer step (inputs # rest) s =
     (case train_step topk learning_rule local_step inputs s of
        (Some e, s') \<Rightarrow> (Some e, s')
      | (None, s') \<Rightarrow>
          train_batches topk learning_rule local_step visualizer (Suc step) rest
            (if visualizer then s'\<lparr>events := events s' @ [VisualizeWeights step]\<rparr> else s'))"

text \<open>Lines 75 to 78. \<open>vis_epoch % eval_every\<close> raises ZeroDivisionError for 0.\<close>

definition evaluation ::
  "(tensor \<Rightarrow> 'stats option) \<Rightarrow> int option \<Rightarrow> nat \<Rightarrow> 'stats engine
     \<Rightarrow> (error + 'stats option) \<times> 'stats engine" where
  "evaluation eval_fn eval_every vis_epoch s =
     (case eval_every of
        None \<Rightarrow> (Inr None, s)
      | Some n \<Rightarrow>
          if n = 0 then (Inl ZeroDivisionError, s)
          else if int vis_epoch mod n = 0
          then (Inr (eval_fn (weight s)), s\<lparr>events := events s @ [Eval vis_epoch]\<rparr>)
          else (Inr None, s))"

text \<open>Lines 81 to 86: both calls of \<open>checkpoint\<close>, with and without statistics.\<close>

definition checkpointing ::
  "int option \<Rightarrow> nat \<Rightarrow> 'stats option \<Rightarrow> 'stats engine \<Rightarrow> error option \<times> 'stats engine" where
  "checkpointing checkpoint_every vis_epoch stats s =
     (case checkpoint_every of
        None \<Rightarrow> (None, s)
      | Some n \<Rightarrow>
          if n = 0 then (Some ZeroDivisionError, s)
          else if int vis_epoch mod n = 0
          then (None, s\<lparr>events := events s @ [Checkpoint vis_epoch stats]\<rparr>)
          else (None, s))"

text \<open>
  Lines 56 to 86: one pass of the training loop. The learning rate is read for the log
  (line 58) and, with a visualizer, once more for the scalar it is given (line 61).
  \<open>data_loader\<close> is the list of batches the loader yields, and \<open>len(data_loader)\<close> its
  length; the reshuffling between two passes is not modelled.
\<close>

definition train_epoch ::
  "(tensor \<Rightarrow> nat \<Rightarrow> nat list list) \<Rightarrow> krotovs_rule \<Rightarrow> (real \<Rightarrow> tensor \<Rightarrow> tensor \<Rightarrow> tensor)
     \<Rightarrow> (tensor \<Rightarrow> 'stats option) \<Rightarrow> bool \<Rightarrow> batch list \<Rightarrow> int option \<Rightarrow> int option
     \<Rightarrow> nat \<Rightarrow> 'stats engine \<Rightarrow> error option \<times> 'stats engine" where
  "train_epoch topk learning_rule local_step eval_fn visualizer data_loader eval_every
       checkpoint_every epoch s =
     (let vis_epoch = epoch + 1;
          epoch_step = epoch * length data_loader;
          s = s\<lparr>events := events s @ [GetLastLr (get_last_lr (lr_scheduler s))]\<rparr>;
          s = (if visualizer
               then s\<lparr>events := events s @ [GetLastLr (get_last_lr (lr_scheduler s)),
                                            AddScalar (get_last_lr (lr_scheduler s)) epoch_step]\<rparr>
               else s)
      in case train_batches topk learning_rule local_step visualizer epoch_step data_loader s of
           (Some e, s) \<Rightarrow> (Some e, s)
         | (None, s) \<Rightarrow>
             let s = s\<lparr>lr_scheduler := scheduler_step (lr_scheduler s),
                       events := events s @ [SchedulerStep]\<rparr>
             in (case evaluation eval_fn eval_every vis_epoch s of
                   (Inl e, s) \<Rightarrow> (Some e, s)
                 | (Inr stats, s) \<Rightarrow> checkpointing checkpoint_every vis_epoch stats s))"

fun train_epochs ::
  "(tensor \<Rightarrow> nat \<Rightarrow> nat list list) \<Rightarrow> krotovs_rule \<Rightarrow> (real \<Rightarrow> tensor \<Rightarrow> tensor \<Rightarrow> tensor)
     \<Rightarrow> (tensor \<Rightarrow> 'stats option) \<Rightarrow> bool \<Rightarrow> batch list \<Rightarrow> int option \<Rightarrow> int option
     \<Rightarrow> nat list \<Rightarrow> 'stats engine \<Rightarrow> error option \<times> 'stats engine" where
  "train_epochs topk learning_rule local_step eval_fn visualizer data_loader eval_every
       checkpoint_every [] s = (None, s)"
| "train_epochs topk learning_rule local_step eval_fn visualizer data_loader eval_every
       checkpoint_every (epoch # rest) s =
     (case train_epoch topk learning_rule local_step eval_fn visualizer data_loader eval_every
             checkpoint_every epoch s of
        (Some e, s') \<Rightarrow> (Some e, s')
      | (None, s') \<Rightarrow>
          train_epochs topk learning_rule local_step eval_fn visualizer data_loader eval_every
            checkpoint_every rest s')"

text \<open>
  \<open>HebbianEngine.train\<close>. Line 33 takes the first batch of the loader, and \<open>next\<close> raises
  StopIteration when there is none; line 34 unpacks its size into four names and raises
  ValueError unless it has four dimensions. \<open>w0\<close> is the draw of
  \<open>weights.data.normal_(mean=0.0, std=1.0)\<close> for the trained layer; with a visualizer the
  weights are shown once before the loop (line 52); \<open>range(epochs)\<close> is empty for
  \<open>epochs \<le> 0\<close>.
\<close>

definition train ::
  "(tensor \<Rightarrow> nat \<Rightarrow> nat list list) \<Rightarrow> krotovs_rule \<Rightarrow> (real \<Rightarrow> tensor \<Rightarrow> tensor \<Rightarrow> tensor)
     \<Rightarrow> (tensor \<Rightarrow> 'stats option) \<Rightarrow> bool \<Rightarrow> batch list \<Rightarrow> tensor \<Rightarrow> int
     \<Rightarrow> int option \<Rightarrow> int option \<Rightarrow> 'stats engine \<Rightarrow> error option \<times> 'stats engine" where
  "train topk learning_rule local_step eval_fn visualizer data_loader w0 epochs eval_every
       checkpoint_every s =
     (case data_loader of
        [] \<Rightarrow> (Some StopIteration, s)
      | first # _ \<Rightarrow>
          if length (dims first) \<noteq> 4 then (Some ValueError, s)
          else
            let s = s\<lparr>weight := w0\<rparr>;
                s = (if visualizer then s\<lparr>events := events s @ [VisualizeWeights 0]\<rparr> else s)
            in train_epochs topk learning_rule local_step eval_fn visualizer data_loader
                 eval_every checkpoint_every [0..<nat epochs] s)"

fun is_eval :: "'stats event \<Rightarrow> bool" where
  "is_eval (Eval n) = True"
| "is_eval ev = False"

fun is_checkpoint :: "'stats event \<Rightarrow> bool" where
  "is_checkpoint (Checkpoint n st) = True"
| "is_checkpoint ev = False"

section \<open>The rule on a store of tensors\<close>

text \<open>
  \<open>update\<close> once more, with the tensors of the caller held in a store (a list of tensors;
  an address is a position in it), to state what the method writes. Its only in-place
  operations are the two indexed assignments of lines 46 and 47, on the tensor that
  \<open>torch.zeros\<close> allocates at line 45. \<open>torch.t(inputs)\<close> is a view of \<open>inputs\<close> that is only
  read; every other operation returns a new tensor. \<open>inputs\<close> and \<open>weights\<close> are read from
  the store where the code reads them.
\<close>

type_synonym store = "tensor list"

definition index_put_at ::
  "store \<Rightarrow> nat \<Rightarrow> nat list \<Rightarrow> nat list \<Rightarrow> real \<Rightarrow> error + store" where
  "index_put_at st a is js v =
     (case index_put (st ! a) is js v of Inl e \<Rightarrow> Inl e | Inr A \<Rightarrow> Inr (st[a := A]))"

definition update_store ::
  "(tensor \<Rightarrow> nat \<Rightarrow> nat list list) \<Rightarrow> krotovs_rule \<Rightarrow> nat \<Rightarrow> nat \<Rightarrow> store
     \<Rightarrow> (error + tensor) \<times> store" where
  "update_store topk self a_inputs a_weights st =
     (let batch_size = nrows (st ! a_inputs);
          num_hidden_units = nrows (st ! a_weights)
      in if nrows (st ! a_inputs) = 0 then (Inl IndexError, st)
         else
           let input_size = ncols (st ! a_inputs)
           in if \<not> k self \<le> int num_hidden_units then (Inl (AssertionError assert_msg), st)
              else
                case tot_input self (torch_t (st ! a_inputs)) (st ! a_weights) of
                  Inl e \<Rightarrow> (Inl e, st)
                | Inr tot \<Rightarrow>
                    if k self < 0 then (Inl RuntimeError, st)
                    else
                      let indices = topk tot (nat (k self));
                          a_act = length st;
                          st = st @ [zeros num_hidden_units batch_size]
                      in case py_index indices 0 of Inl e \<Rightarrow> (Inl e, st) | Inr first \<Rightarrow>
                         (case index_put_at st a_act first [0..<batch_size] 1 of
                            Inl e \<Rightarrow> (Inl e, st)
                          | Inr st \<Rightarrow>
                         (case py_index indices (k self - 1) of
                            Inl e \<Rightarrow> (Inl e, st)
                          | Inr kth \<Rightarrow>
                         (case index_put_at st a_act kth [0..<batch_size] (- delta self) of
                            Inl e \<Rightarrow> (Inl e, st)
                          | Inr st \<Rightarrow>
                         (case raw_delta (st ! a_act) tot (torch_t (st ! a_inputs))
                                 (st ! a_weights) input_size of
                            Inl e \<Rightarrow> (Inl e, st)
                          | Inr ds \<Rightarrow> (normalize self ds, st))))))"

section \<open>Concrete tensors\<close>

text \<open>
  A batch of two samples with three features and three hidden units, whose scores under
  \<open>norm = 3\<close> are 1, 18, 6 for the first sample and 4, 8, 2 for the second: no ties.
\<close>

definition X_ex :: tensor where
  "X_ex = \<lparr>nrows = 2, ncols = 3, rows = [[1, 0, 2], [0, 1, 1]]\<rparr>"

definition W_ex :: tensor where
  "W_ex = \<lparr>nrows = 3, ncols = 3, rows = [[1, 2, 0], [0, - 1, 3], [2, 1, 1]]\<rparr>"

definition rule_ex :: krotovs_rule where
  "rule_ex = KrotovsRule_init (1 / 10 ^ 30) (2 / 5) 3 2"

text \<open>
  One sample and two hidden units with the same score 1 under \<open>norm = 2\<close>: an exact tie.
\<close>

definition X_tie :: tensor where
  "X_tie = \<lparr>nrows = 1, ncols = 2, rows = [[1, 0]]\<rparr>"

definition W_tie :: tensor where
  "W_tie = \<lparr>nrows = 2, ncols = 2, rows = [[1, 0], [1, 5]]\<rparr>"

definition rule_tie :: krotovs_rule where
  "rule_tie = KrotovsRule_init (1 / 10 ^ 30) (2 / 5) 2 2"

text \<open>The same rule with \<open>k = 1\<close>, and the overlap scores of the two examples.\<close>

definition rule_k1 :: krotovs_rule where
  "rule_k1 = KrotovsRule_init (1 / 10 ^ 30) (2 / 5) 3 1"

definition T_ex :: tensor where
  "T_ex = \<lparr>nrows = 3, ncols = 2, rows = [[1, 4], [18, 8], [6, 2]]\<rparr>"

definition T_tie :: tensor where
  "T_tie = \<lparr>nrows = 2, ncols = 1, rows = [[1], [1]]\<rparr>"

text \<open>
  The activations and the raw delta of the first example, and a batch of zeros with its
  scores, activations and raw delta.
\<close>

definition A_ex :: tensor where
  "A_ex = \<lparr>nrows = 3, ncols = 2, rows = [[0, - (2 / 5)], [1, 1], [- (2 / 5), 0]]\<rparr>"

definition ds_ex :: tensor where
  "ds_ex = \<lparr>nrows = 3, ncols = 3,
            rows = [[8 / 5, 14 / 5, - (2 / 5)], [1, 27, - 75], [22 / 5, 12 / 5, 8 / 5]]\<rparr>"

definition X_zero :: tensor where
  "X_zero = \<lparr>nrows = 2, ncols = 3, rows = [[0, 0, 0], [0, 0, 0]]\<rparr>"

definition T_zero :: tensor where
  "T_zero = \<lparr>nrows = 3, ncols = 2, rows = [[0, 0], [0, 0], [0, 0]]\<rparr>"

definition A_zero :: tensor where
  "A_zero = \<lparr>nrows = 3, ncols = 2, rows = [[1, 1], [- (2 / 5), - (2 / 5)], [0, 0]]\<rparr>"

definition ds_zero :: tensor where
  "ds_zero = \<lparr>nrows = 3, ncols = 3, rows = [[0, 0, 0], [0, 0, 0], [0, 0, 0]]\<rparr>"

text \<open>
  A local optimizer in the words of the specification, \<open>W += lr * delta\<close>, to run the
  engine on concrete tensors.
\<close>

definition local_step_ex :: "real \<Rightarrow> tensor \<Rightarrow> tensor \<Rightarrow> tensor" where
  "local_step_ex lr d_p w = zip_with (\<lambda>x d. x + lr * d) w d_p"

definition engine_ex :: "unit engine" where
  "engine_ex = \<lparr>weight = W_ex, lr_scheduler = LambdaLR_init (1 / 25) (main_lr_lambda 4),
                events = []\<rparr>"

text \<open>
  The first example as a batch of two images of one channel, one row and three columns,
  and a batch of that kind without samples.
\<close>

definition batch_ex :: batch where
  "batch_ex = \<lparr>dims = [2, 1, 1, 3], samples = X_ex\<rparr>"

definition X_empty :: tensor where
  "X_empty = \<lparr>nrows = 0, ncols = 3, rows = []\<rparr>"

definition batch_empty :: batch where
  "batch_empty = \<lparr>dims = [0, 1, 1, 3], samples = X_empty\<rparr>"

text \<open>
  Two runs of the engine over four epochs of one batch each, with \<open>k = 2\<close> and three
  hidden units: without a visualizer, evaluating every second epoch and with no checkpoint
  interval; and as \<open>main\<close> sets the engine up, with a visualizer and its schedule.
\<close>

definition run_ex :: "error option \<times> unit engine" where
  "run_ex = train topk_stable rule_ex local_step_ex (\<lambda>w. Some ()) False [batch_ex] W_ex 4
              (Some 2) None engine_ex"

definition run_main_ex :: "error option \<times> unit engine" where
  "run_main_ex = train topk_stable rule_ex local_step_ex (\<lambda>w. Some ()) True [batch_ex] W_ex 4
                   (Some 50) None engine_ex"

text \<open>
  A store holding the first example, the same tensors at other addresses, and the delta
  that \<open>update\<close> returns for them.
\<close>

definition store_ex :: store where
  "store_ex = [X_ex, W_ex]"

definition store_ex' :: store where
  "store_ex' = [W_ex, T_ex, X_ex]"

definition d_ex :: tensor where
  "d_ex = \<lparr>nrows = 3, ncols = 3,
           rows = [[8 / 375, 14 / 375, - (2 / 375)], [1 / 75, 9 / 25, - 1],
                   [22 / 375, 4 / 125, 8 / 375]]\<rparr>"

section \<open>Shapes and entries\<close>

lemma map2_same: "map2 f (map g xs) (map h xs) = map (\<lambda>x. f (g x) (h x)) xs"
  by (induction xs) simp_all

lemma sum_list_upt_lessThan: "(\<Sum>d\<leftarrow>[0..<n]. f d) = (\<Sum>d<n. f d)"
  by (simp add: interv_sum_list_conv_sum_set_nat atLeast0LessThan)

lemma wf_rows_nth: "wf_tensor T \<Longrightarrow> i < nrows T \<Longrightarrow> length (rows T ! i) = ncols T"
  by (simp add: wf_tensor_def list_all_length)

lemma torch_t_entry:
  "wf_tensor T \<Longrightarrow> i < nrows T \<Longrightarrow> j < ncols T \<Longrightarrow> rows (torch_t T) ! j ! i = rows T ! i ! j"
  by (simp add: torch_t_def wf_tensor_def)

section \<open>Ranks under the selection contracts\<close>

text \<open>
  When the scores of a column are pairwise distinct, a position is determined by the number
  of positions with a larger score. The \<open>j\<close>-th entry of a top-k result has exactly \<open>j\<close>
  larger positions, and so has the entry \<open>j\<close> places before the end of an argsort result.
\<close>

lemma is_topk_greater:
  assumes T: "is_topk v n idx" and dv: "distinct v" and j: "j < n"
  shows "{h. h < length v \<and> v ! (idx ! j) < v ! h} = set (take j idx)"
proof -
  from T have len: "length idx = n" and di: "distinct idx"
    and srt: "sorted_wrt (\<lambda>a b. v ! b \<le> v ! a) idx"
    and rng': "\<forall>i\<in>set idx. i < length v"
    and out': "\<forall>h<length v. h \<in> set idx \<or> (\<forall>i\<in>set idx. v ! h \<le> v ! i)"
    by (simp_all add: is_topk_def list_all_iff)
  have rng: "\<forall>i<n. idx ! i < length v"
    using rng' len by simp
  have out: "\<forall>h<length v. h \<in> set idx \<or> (\<forall>i<n. v ! h \<le> v ! (idx ! i))"
    using out' len by (metis nth_mem)
  have ne: "v ! (idx ! a) \<noteq> v ! (idx ! b)" if "a < n" "b < n" "a \<noteq> b" for a b
  proof -
    have "idx ! a \<noteq> idx ! b" using that di len by (simp add: nth_eq_iff_index_eq)
    moreover have "idx ! a < length v" "idx ! b < length v" using that rng by simp_all
    ultimately show ?thesis using dv by (simp add: nth_eq_iff_index_eq)
  qed
  have le: "v ! (idx ! b) \<le> v ! (idx ! a)" if "a < b" "b < n" for a b
    using srt that len by (simp add: sorted_wrt_iff_nth_less)
  show ?thesis
  proof (intro set_eqI iffI)
    fix h assume "h \<in> {h. h < length v \<and> v ! (idx ! j) < v ! h}"
    then have h: "h < length v" "v ! (idx ! j) < v ! h" by simp_all
    have "h \<in> set idx"
    proof (rule ccontr)
      assume "h \<notin> set idx"
      with out h(1) have "\<forall>i<n. v ! h \<le> v ! (idx ! i)" by blast
      with j have "v ! h \<le> v ! (idx ! j)" by blast
      with h(2) show False by simp
    qed
    then obtain i where i: "i < n" "idx ! i = h" using len by (auto simp: in_set_conv_nth)
    have "i < j"
    proof (rule ccontr)
      assume "\<not> i < j"
      then consider "i = j" | "j < i" by linarith
      then show False
      proof cases
        case 1 then show ?thesis using h(2) i by simp
      next
        case 2 then show ?thesis using le [of j i] h(2) i by simp
      qed
    qed
    then show "h \<in> set (take j idx)"
      using i j len by (auto simp: in_set_conv_nth)
  next
    fix h assume "h \<in> set (take j idx)"
    then obtain i where i: "i < j" "idx ! i = h"
      using j len by (auto simp: in_set_conv_nth)
    have "v ! (idx ! j) \<le> v ! (idx ! i)" using le [of i j] i j by simp
    moreover have "v ! (idx ! j) \<noteq> v ! (idx ! i)" using ne [of j i] i j by simp
    moreover have "h < length v" using i j rng by auto
    ultimately show "h \<in> {h. h < length v \<and> v ! (idx ! j) < v ! h}"
      using i by simp
  qed
qed

lemma set_drop_nth: "set (drop m xs) = {xs ! i | i. m \<le> i \<and> i < length xs}"
proof (intro set_eqI iffI)
  fix x assume "x \<in> set (drop m xs)"
  then obtain i where i: "i < length xs - m" "drop m xs ! i = x"
    by (auto simp: in_set_conv_nth)
  then have "x = xs ! (m + i)" "m \<le> m + i" "m + i < length xs" by simp_all
  then show "x \<in> {xs ! i | i. m \<le> i \<and> i < length xs}" by blast
next
  fix x assume "x \<in> {xs ! i | i. m \<le> i \<and> i < length xs}"
  then obtain i where i: "m \<le> i" "i < length xs" "x = xs ! i" by blast
  then have "drop m xs ! (i - m) = x" "i - m < length (drop m xs)" by simp_all
  then show "x \<in> set (drop m xs)" by (metis nth_mem)
qed

lemma is_argsort_greater:
  assumes A: "is_argsort v y" and dv: "distinct v" and j: "j < length v"
  shows "{h. h < length v \<and> v ! (y ! (length v - 1 - j)) < v ! h} = set (drop (length v - j) y)"
proof -
  let ?n = "length v"
  from A have len: "length y = ?n" and dy: "distinct y"
    and srt: "sorted_wrt (\<lambda>a b. v ! a \<le> v ! b) y"
    and rng': "\<forall>i\<in>set y. i < ?n"
    by (simp_all add: is_argsort_def list_all_iff)
  have rng: "\<forall>i<?n. y ! i < ?n" using rng' len by simp
  have "set y \<subseteq> {..<?n}" using rng' by blast
  moreover have "card (set y) = card {..<?n}" using dy len by (simp add: distinct_card)
  ultimately have all: "set y = {..<?n}" by (simp add: card_subset_eq)
  have ne: "v ! (y ! a) \<noteq> v ! (y ! b)" if "a < ?n" "b < ?n" "a \<noteq> b" for a b
  proof -
    have "y ! a \<noteq> y ! b" using that dy len by (simp add: nth_eq_iff_index_eq)
    moreover have "y ! a < ?n" "y ! b < ?n" using that rng by simp_all
    ultimately show ?thesis using dv by (simp add: nth_eq_iff_index_eq)
  qed
  have le: "v ! (y ! a) \<le> v ! (y ! b)" if "a < b" "b < ?n" for a b
    using srt that len by (simp add: sorted_wrt_iff_nth_less)
  let ?p = "?n - 1 - j"
  have p: "?p < ?n" using j by simp
  have dropset: "set (drop (?n - j) y) = {y ! i | i. ?n - j \<le> i \<and> i < ?n}"
    using len by (simp add: set_drop_nth)
  show ?thesis
  proof (intro set_eqI iffI)
    fix h assume "h \<in> {h. h < ?n \<and> v ! (y ! ?p) < v ! h}"
    then have h: "h < ?n" "v ! (y ! ?p) < v ! h" by simp_all
    with all have "h \<in> set y" by simp
    then obtain i where i: "i < ?n" "y ! i = h" using len by (auto simp: in_set_conv_nth)
    have "?p < i"
    proof (rule ccontr)
      assume "\<not> ?p < i"
      then consider "i = ?p" | "i < ?p" by linarith
      then show False
      proof cases
        case 1 then show ?thesis using h(2) i by simp
      next
        case 2 then show ?thesis using le [of i ?p] p h(2) i by simp
      qed
    qed
    then have "?n - j \<le> i" using j by simp
    with i show "h \<in> set (drop (?n - j) y)" unfolding dropset by blast
  next
    fix h assume "h \<in> set (drop (?n - j) y)"
    then obtain i where i: "?n - j \<le> i" "i < ?n" "y ! i = h"
      unfolding dropset by blast
    then have pi: "?p < i" using j by simp
    have "v ! (y ! ?p) \<le> v ! (y ! i)" using le [of ?p i] pi i by simp
    moreover have "v ! (y ! ?p) \<noteq> v ! (y ! i)" using ne [of ?p i] pi i p by simp
    moreover have "h < ?n" using i rng by blast
    ultimately show "h \<in> {h. h < ?n \<and> v ! (y ! ?p) < v ! h}"
      using i by simp
  qed
qed

lemma rank_unique:
  fixes v :: "real list"
  assumes dv: "distinct v" and a: "a < length v" and b: "b < length v"
    and c: "card {h. h < length v \<and> v ! a < v ! h} = card {h. h < length v \<and> v ! b < v ! h}"
  shows "a = b"
proof (rule ccontr)
  assume ab: "a \<noteq> b"
  have ne: "v ! a \<noteq> v ! b" using ab a b dv by (simp add: nth_eq_iff_index_eq)
  have strict: "card {h. h < length v \<and> v ! x < v ! h} < card {h. h < length v \<and> v ! z < v ! h}"
    if "v ! z < v ! x" "x < length v" for x z
  proof (rule psubset_card_mono)
    show "finite {h. h < length v \<and> v ! z < v ! h}" by simp
    have "x \<in> {h. h < length v \<and> v ! z < v ! h}" using that by simp
    moreover have "x \<notin> {h. h < length v \<and> v ! x < v ! h}" by simp
    moreover have "{h. h < length v \<and> v ! x < v ! h} \<subseteq> {h. h < length v \<and> v ! z < v ! h}"
      using that(1) by auto
    ultimately show "{h. h < length v \<and> v ! x < v ! h} \<subset> {h. h < length v \<and> v ! z < v ! h}"
      by blast
  qed
  from ne consider "v ! a < v ! b" | "v ! b < v ! a" by linarith
  then show False
  proof cases
    case 1 then show ?thesis using strict [of a b] b c by simp
  next
    case 2 then show ?thesis using strict [of b a] a c by simp
  qed
qed

lemma topk_argsort_agree:
  assumes T: "is_topk v n idx" and A: "is_argsort v y" and dv: "distinct v" and j: "j < n"
  shows "idx ! j = y ! (length v - 1 - j)"
proof -
  from T have len: "length idx = n" and di: "distinct idx"
    and rng': "\<forall>i\<in>set idx. i < length v"
    by (simp_all add: is_topk_def list_all_iff)
  have "set idx \<subseteq> {..<length v}" using rng' by blast
  then have "card (set idx) \<le> card {..<length v}" by (intro card_mono) simp_all
  then have nle: "n \<le> length v" using di len by (simp add: distinct_card)
  with j have jv: "j < length v" by simp
  from A have leny: "length y = length v" and dy: "distinct y"
    and rngy': "\<forall>i\<in>set y. i < length v"
    by (simp_all add: is_argsort_def list_all_iff)
  have ia: "idx ! j < length v" using rng' j len by simp
  have ib: "y ! (length v - 1 - j) < length v" using rngy' jv leny by simp
  have "card (set (take j idx)) = j"
    using di len j by (simp add: distinct_card)
  then have c1: "card {h. h < length v \<and> v ! (idx ! j) < v ! h} = j"
    using is_topk_greater [OF T dv j] by simp
  have "card (set (drop (length v - j) y)) = j"
    using dy leny jv by (simp add: distinct_card)
  then have c2: "card {h. h < length v \<and> v ! (y ! (length v - 1 - j)) < v ! h} = j"
    using is_argsort_greater [OF A dv jv] by simp
  show ?thesis
    using c1 c2 by (intro rank_unique [OF dv ia ib]) simp
qed

section \<open>The stages of the rule on a valid call\<close>

lemma fold_put_length:
  "length (fold (\<lambda>(i, j) R. R[i := (R ! i)[j := v]]) ps R) = length (R :: real list list)"
  by (induction ps arbitrary: R) (simp_all add: split_def)

lemma fold_put_row_length:
  "length (fold (\<lambda>(i, j) R. R[i := (R ! i)[j := v]]) ps R ! h) = length ((R :: real list list) ! h)"
proof (induction ps arbitrary: R)
  case Nil
  show ?case by simp
next
  case (Cons p ps)
  obtain i j where p: "p = (i, j)" by (cases p)
  have "length (R[i := (R ! i)[j := v]] ! h) = length (R ! h)"
    by (cases "i < length R") (simp_all add: nth_list_update list_update_beyond)
  with Cons.IH [of "R[i := (R ! i)[j := v]]"] show ?case by (simp add: p)
qed

lemma fold_put_nth:
  fixes R :: "real list list"
  assumes "h < length R" and "b < length (R ! h)"
  shows "fold (\<lambda>(i, j) R. R[i := (R ! i)[j := v]]) ps R ! h ! b
           = (if (h, b) \<in> set ps then v else R ! h ! b)"
  using assms
proof (induction ps arbitrary: R)
  case Nil
  show ?case by simp
next
  case (Cons p ps)
  obtain i j where p: "p = (i, j)" by (cases p)
  let ?R = "R[i := (R ! i)[j := v]]"
  have h: "h < length ?R" using Cons.prems by simp
  have b: "b < length (?R ! h)"
    using Cons.prems by (cases "i = h") (simp_all add: nth_list_update)
  have one: "?R ! h ! b = (if (h, b) = (i, j) then v else R ! h ! b)"
  proof (cases "i = h")
    case True
    then have "?R ! h = (R ! h)[j := v]" using Cons.prems by simp
    then show ?thesis using True Cons.prems by (simp add: nth_list_update)
  next
    case False
    then show ?thesis by simp
  qed
  have "fold (\<lambda>(i, j) R. R[i := (R ! i)[j := v]]) (p # ps) R ! h ! b
          = fold (\<lambda>(i, j) R. R[i := (R ! i)[j := v]]) ps ?R ! h ! b"
    by (simp add: p)
  also have "\<dots> = (if (h, b) \<in> set ps then v else ?R ! h ! b)"
    by (rule Cons.IH [OF h b])
  also have "\<dots> = (if (h, b) \<in> set ps then v
                     else if (h, b) = (i, j) then v else R ! h ! b)"
    by (simp only: one)
  also have "\<dots> = (if (h, b) \<in> set (p # ps) then v else R ! h ! b)"
    unfolding p by auto
  finally show ?case .
qed

lemma in_set_zip_upt:
  "length is = n \<Longrightarrow> (h, b) \<in> set (zip is [0..<n]) \<longleftrightarrow> b < n \<and> is ! b = h"
  by (auto simp: set_zip)

lemma index_put_arange:
  assumes wf: "wf_tensor A" and len: "length is = ncols A"
    and rng: "\<forall>i\<in>set is. i < nrows A"
  shows "\<exists>A'. index_put A is [0..<ncols A] v = Inr A' \<and> wf_tensor A'
           \<and> nrows A' = nrows A \<and> ncols A' = ncols A
           \<and> (\<forall>h<nrows A. \<forall>b<ncols A.
                 rows A' ! h ! b = (if is ! b = h then v else rows A ! h ! b))"
proof -
  let ?f = "\<lambda>(i, j) R. R[i := (R ! i)[j := v]]"
  let ?A = "A\<lparr>rows := fold ?f (zip is [0..<ncols A]) (rows A)\<rparr>"
  have eq: "index_put A is [0..<ncols A] v = Inr ?A"
    using len rng by (simp add: index_put_def list_all_iff)
  have lenA: "length (rows A) = nrows A" and rowA: "\<forall>r\<in>set (rows A). length r = ncols A"
    using wf by (simp_all add: wf_tensor_def list_all_iff)
  have wf': "wf_tensor ?A"
    unfolding wf_tensor_def list_all_length
    using lenA rowA by (simp add: fold_put_length fold_put_row_length)
  have ent: "rows ?A ! h ! b = (if is ! b = h then v else rows A ! h ! b)"
    if "h < nrows A" "b < ncols A" for h b
  proof -
    have "h < length (rows A)" "b < length (rows A ! h)"
      using that lenA rowA by simp_all
    then show ?thesis using that len by (simp add: fold_put_nth in_set_zip_upt)
  qed
  from eq wf' ent show ?thesis by simp
qed

lemma tot_input_shape:
  assumes W: "wf_tensor weights" and D: "ncols weights = ncols inputs"
  shows "\<exists>T. tot_input self (torch_t inputs) weights = Inr T \<and> wf_tensor T
           \<and> nrows T = nrows weights \<and> ncols T = nrows inputs"
proof -
  let ?A = "mul (sign weights) (pow_t (abs_t weights) (norm_p self - 1))"
  have shapeA: "nrows ?A = nrows weights" "ncols ?A = ncols weights"
    by (simp_all add: mul_def zip_with_def sign_def tmap_def)
  have lenA: "length (rows ?A) = nrows weights"
    using W by (simp add: mul_def zip_with_def sign_def pow_t_def abs_t_def tmap_def wf_tensor_def)
  show ?thesis
    using D lenA
    by (simp add: tot_input_def matmul_def shapeA wf_tensor_def list_all_iff)
       (simp add: torch_t_def)
qed

lemma column_length: "length (column xss b) = length xss"
  by (simp add: column_def)

lemma column_nth: "j < length xss \<Longrightarrow> column xss b ! j = xss ! j ! b"
  by (simp add: column_def)

lemma topk_ok_row:
  assumes wf: "wf_tensor T" and ok: "topk_ok T n indices" and j: "j < n"
  shows "length (indices ! j) = ncols T" and "\<forall>i\<in>set (indices ! j). i < nrows T"
proof -
  from ok have len: "length indices = n"
    and rl: "\<forall>r\<in>set indices. length r = ncols T"
    and cols: "\<forall>b\<in>set [0..<ncols T]. is_topk (column (rows T) b) n (column indices b)"
    by (simp_all add: topk_ok_def list_all_iff)
  from rl len j show L: "length (indices ! j) = ncols T" by simp
  show "\<forall>i\<in>set (indices ! j). i < nrows T"
  proof
    fix i assume "i \<in> set (indices ! j)"
    then obtain b where b: "b < ncols T" "indices ! j ! b = i"
      using L by (auto simp: in_set_conv_nth)
    from cols b(1) have "is_topk (column (rows T) b) n (column indices b)" by simp
    then have "\<forall>x\<in>set (column indices b). x < length (column (rows T) b)"
      by (simp add: is_topk_def list_all_iff)
    moreover have "column indices b ! j \<in> set (column indices b)"
      using j len by (simp add: column_length)
    ultimately have "column indices b ! j < length (rows T)"
      by (simp add: column_length)
    then show "i < nrows T"
      using wf b j len by (simp add: column_nth wf_tensor_def)
  qed
qed

lemma argsort_ok_row:
  assumes wf: "wf_tensor T" and ok: "argsort_ok T y" and j: "j < nrows T"
  shows "length (y ! j) = ncols T" and "\<forall>i\<in>set (y ! j). i < nrows T"
proof -
  from ok have len: "length y = nrows T"
    and rl: "\<forall>r\<in>set y. length r = ncols T"
    and cols: "\<forall>b\<in>set [0..<ncols T]. is_argsort (column (rows T) b) (column y b)"
    by (simp_all add: argsort_ok_def list_all_iff)
  from rl len j show L: "length (y ! j) = ncols T" by simp
  show "\<forall>i\<in>set (y ! j). i < nrows T"
  proof
    fix i assume "i \<in> set (y ! j)"
    then obtain b where b: "b < ncols T" "y ! j ! b = i"
      using L by (auto simp: in_set_conv_nth)
    from cols b(1) have "is_argsort (column (rows T) b) (column y b)" by simp
    then have "\<forall>x\<in>set (column y b). x < length (column (rows T) b)"
      by (simp add: is_argsort_def list_all_iff)
    moreover have "column y b ! j \<in> set (column y b)"
      using j len by (simp add: column_length)
    ultimately have "column y b ! j < length (rows T)"
      by (simp add: column_length)
    then show "i < nrows T"
      using wf b j len by (simp add: column_nth wf_tensor_def)
  qed
qed

lemma topk_ok_le:
  assumes wf: "wf_tensor T" and ok: "topk_ok T n indices" and B: "0 < ncols T"
  shows "n \<le> nrows T"
proof -
  from ok B have T: "is_topk (column (rows T) 0) n (column indices 0)"
    by (simp add: topk_ok_def list_all_iff)
  let ?idx = "column indices 0"
  from T have len: "length ?idx = n" and di: "distinct ?idx"
    and rng: "\<forall>i\<in>set ?idx. i < length (column (rows T) 0)"
    by (simp_all add: is_topk_def list_all_iff)
  have "set ?idx \<subseteq> {..<nrows T}"
    using rng wf by (auto simp: column_length wf_tensor_def)
  then have "card (set ?idx) \<le> card {..<nrows T}" by (intro card_mono) simp_all
  then show ?thesis using di len by (simp add: distinct_card)
qed

lemma selection_rows_agree:
  assumes wf: "wf_tensor T" and tk: "topk_ok T n indices" and as: "argsort_ok T y"
    and nt: "no_ties T" and B: "0 < ncols T" and j: "j < n"
  shows "indices ! j = y ! (nrows T - 1 - j)"
proof (rule nth_equalityI)
  have nle: "n \<le> nrows T" by (rule topk_ok_le [OF wf tk B])
  with j have p: "nrows T - 1 - j < nrows T" by simp
  from tk have leni: "length indices = n" by (simp add: topk_ok_def)
  from as have leny: "length y = nrows T" by (simp add: argsort_ok_def)
  show "length (indices ! j) = length (y ! (nrows T - 1 - j))"
    using topk_ok_row(1) [OF wf tk j] argsort_ok_row(1) [OF wf as p] by simp
  fix b assume "b < length (indices ! j)"
  then have b: "b < ncols T" using topk_ok_row(1) [OF wf tk j] by simp
  from tk b have T: "is_topk (column (rows T) b) n (column indices b)"
    by (simp add: topk_ok_def list_all_iff)
  from as b have A: "is_argsort (column (rows T) b) (column y b)"
    by (simp add: argsort_ok_def list_all_iff)
  from nt b have dv: "distinct (column (rows T) b)"
    by (simp add: no_ties_def list_all_iff)
  have lv: "length (column (rows T) b) = nrows T"
    using wf by (simp add: column_length wf_tensor_def)
  from topk_argsort_agree [OF T A dv j]
  have "column indices b ! j = column y b ! (nrows T - 1 - j)" by (simp add: lv)
  then show "indices ! j ! b = y ! (nrows T - 1 - j) ! b"
    using j p leni leny by (simp add: column_nth)
qed

lemma zeros_wf: "wf_tensor (zeros n m)" "nrows (zeros n m) = n" "ncols (zeros n m) = m"
  by (simp_all add: zeros_def wf_tensor_def list_all_iff)

lemma zeros_entry: "h < n \<Longrightarrow> b < m \<Longrightarrow> rows (zeros n m) ! h ! b = 0"
  by (simp add: zeros_def)

lemma py_index_nat: "0 \<le> i \<Longrightarrow> nat i < length xs \<Longrightarrow> py_index xs i = Inr (xs ! nat i)"
  by (simp add: py_index_def Let_def)

text \<open>The two indexed assignments of lines 46 and 47 (79 and 80), on rows in range.\<close>

lemma two_puts:
  assumes l1: "length first = m" and r1: "\<forall>i\<in>set first. i < n"
    and l2: "length kth = m" and r2: "\<forall>i\<in>set kth. i < n"
  shows "\<exists>A1 A. index_put (zeros n m) first [0..<m] 1 = Inr A1
           \<and> index_put A1 kth [0..<m] d = Inr A
           \<and> wf_tensor A \<and> nrows A = n \<and> ncols A = m
           \<and> (\<forall>h<n. \<forall>b<m. rows A ! h ! b
                 = (if kth ! b = h then d else if first ! b = h then 1 else 0))"
proof -
  from index_put_arange [of "zeros n m" first 1] l1 r1
  obtain A1 where A1: "index_put (zeros n m) first [0..<m] 1 = Inr A1" "wf_tensor A1"
      "nrows A1 = n" "ncols A1 = m"
      "\<forall>h<n. \<forall>b<m. rows A1 ! h ! b = (if first ! b = h then 1 else rows (zeros n m) ! h ! b)"
    by (auto simp: zeros_wf)
  from index_put_arange [of A1 kth d] l2 r2 A1(2-4)
  obtain A where A: "index_put A1 kth [0..<m] d = Inr A" "wf_tensor A"
      "nrows A = n" "ncols A = m"
      "\<forall>h<n. \<forall>b<m. rows A ! h ! b = (if kth ! b = h then d else rows A1 ! h ! b)"
    by auto
  have "rows A ! h ! b = (if kth ! b = h then d else if first ! b = h then 1 else 0)"
    if "h < n" "b < m" for h b
    using that A(5) A1(5) by (simp add: zeros_entry)
  with A1(1) A(1-4) show ?thesis by blast
qed

lemma activations_topk_entries:
  assumes wf: "wf_tensor T" and ok: "topk_ok T (nat (k self)) (topk T (nat (k self)))"
    and k1: "1 \<le> k self"
  shows "\<exists>A. activations_topk topk self T (nrows T) (ncols T) = Inr A
           \<and> wf_tensor A \<and> nrows A = nrows T \<and> ncols A = ncols T
           \<and> (\<forall>h<nrows T. \<forall>b<ncols T. rows A ! h ! b
                 = (if topk T (nat (k self)) ! nat (k self - 1) ! b = h then - delta self
                    else if topk T (nat (k self)) ! 0 ! b = h then 1 else 0))"
proof -
  let ?ind = "topk T (nat (k self))"
  from ok have len: "length ?ind = nat (k self)" by (simp add: topk_ok_def)
  have j0: "0 < nat (k self)" and jk: "nat (k self - 1) < nat (k self)" using k1 by simp_all
  have p0: "py_index ?ind 0 = Inr (?ind ! 0)"
    using len j0 py_index_nat [of 0 ?ind] by simp
  have pk: "py_index ?ind (k self - 1) = Inr (?ind ! nat (k self - 1))"
    using len jk k1 py_index_nat [of "k self - 1" ?ind] by simp
  from two_puts [OF topk_ok_row [OF wf ok j0] topk_ok_row [OF wf ok jk], of "- delta self"]
  obtain A1 A where A: "index_put (zeros (nrows T) (ncols T)) (?ind ! 0) [0..<ncols T] 1 = Inr A1"
      "index_put A1 (?ind ! nat (k self - 1)) [0..<ncols T] (- delta self) = Inr A"
      "wf_tensor A" "nrows A = nrows T" "ncols A = ncols T"
      "\<forall>h<nrows T. \<forall>b<ncols T. rows A ! h ! b
          = (if ?ind ! nat (k self - 1) ! b = h then - delta self
             else if ?ind ! 0 ! b = h then 1 else 0)"
    by blast
  have "activations_topk topk self T (nrows T) (ncols T) = Inr A"
    using k1 p0 pk A(1,2) by (simp add: activations_topk_def Let_def)
  with A(3-6) show ?thesis by blast
qed

lemma activations_argsort_entries:
  assumes wf: "wf_tensor T" and ok: "argsort_ok T (argsort T)"
    and k1: "1 \<le> k self" and kH: "k self \<le> int (nrows T)"
  shows "\<exists>A. activations_argsort argsort self T (nrows T) (ncols T) = Inr A
           \<and> wf_tensor A \<and> nrows A = nrows T \<and> ncols A = ncols T
           \<and> (\<forall>h<nrows T. \<forall>b<ncols T. rows A ! h ! b
                 = (if argsort T ! (nrows T - nat (k self)) ! b = h then - delta self
                    else if argsort T ! (nrows T - 1) ! b = h then 1 else 0))"
proof -
  let ?y = "argsort T"
  from ok have len: "length ?y = nrows T" by (simp add: argsort_ok_def)
  have j0: "nrows T - 1 < nrows T" and jk: "nrows T - nat (k self) < nrows T"
    using k1 kH by simp_all
  have n0: "nat (int (nrows T) - 1) = nrows T - 1" by simp
  have nk: "nat (int (nrows T) - k self) = nrows T - nat (k self)" using k1 by simp
  have p0: "py_index ?y (int (nrows T) - 1) = Inr (?y ! (nrows T - 1))"
    using len j0 k1 kH py_index_nat [of "int (nrows T) - 1" ?y] by (simp add: n0)
  have pk: "py_index ?y (int (nrows T) - k self) = Inr (?y ! (nrows T - nat (k self)))"
    using len jk k1 kH py_index_nat [of "int (nrows T) - k self" ?y] by (simp add: nk)
  from two_puts [OF argsort_ok_row [OF wf ok j0] argsort_ok_row [OF wf ok jk], of "- delta self"]
  obtain A1 A where A: "index_put (zeros (nrows T) (ncols T)) (?y ! (nrows T - 1)) [0..<ncols T] 1 = Inr A1"
      "index_put A1 (?y ! (nrows T - nat (k self))) [0..<ncols T] (- delta self) = Inr A"
      "wf_tensor A" "nrows A = nrows T" "ncols A = ncols T"
      "\<forall>h<nrows T. \<forall>b<ncols T. rows A ! h ! b
          = (if ?y ! (nrows T - nat (k self)) ! b = h then - delta self
             else if ?y ! (nrows T - 1) ! b = h then 1 else 0)"
    by blast
  have "activations_argsort argsort self T (nrows T) (ncols T) = Inr A"
    using p0 pk A(1,2) by (simp add: activations_argsort_def Let_def)
  with A(3-6) show ?thesis by blast
qed

lemma torch_t_shape: "nrows (torch_t T) = ncols T" "ncols (torch_t T) = nrows T"
  by (simp_all add: torch_t_def)

lemma raw_delta_shape:
  assumes A: "wf_tensor A" "nrows A = nrows weights" "ncols A = nrows inputs"
    and T: "wf_tensor T" "nrows T = nrows weights"
    and W: "wf_tensor weights" "ncols weights = ncols inputs"
  shows "\<exists>ds. raw_delta A T (torch_t inputs) weights (ncols inputs) = Inr ds
            \<and> wf_tensor ds \<and> nrows ds = nrows weights \<and> ncols ds = ncols inputs"
proof -
  let ?H = "nrows weights" and ?D = "ncols inputs"
  let ?xx = "sum1 (mul A T)"
  let ?nf = "mul (view_repeat ?xx ?D) weights"
  let ?hebb = "\<lparr>nrows = nrows A, ncols = ?D,
                rows = map (\<lambda>ra. map (\<lambda>j. \<Sum>d\<leftarrow>[0..<ncols A].
                                 ra ! d * rows (torch_t (torch_t inputs)) ! d ! j)
                                       [0..<?D]) (rows A)\<rparr>"
  have mm: "matmul A (torch_t (torch_t inputs)) = Inr ?hebb"
    using A(3) by (simp add: matmul_def torch_t_shape)
  have eq: "raw_delta A T (torch_t inputs) weights ?D = Inr (sub ?hebb ?nf)"
    by (simp add: raw_delta_def Let_def mm)
  have lA: "length (rows A) = ?H" using A by (simp add: wf_tensor_def)
  have lT: "length (rows T) = ?H" using T by (simp add: wf_tensor_def)
  have lW: "length (rows weights) = ?H" and rW: "\<forall>i<?H. length (rows weights ! i) = ?D"
    using W by (simp_all add: wf_tensor_def list_all_length)
  have lxx: "length ?xx = ?H" using lA lT by (simp add: sum1_def mul_def zip_with_def)
  have lnf: "length (rows ?nf) = ?H"
    using lxx lW by (simp add: mul_def zip_with_def view_repeat_def)
  have rnf: "length (rows ?nf ! i) = ?D" if "i < ?H" for i
    using that lxx lW rW by (simp add: mul_def zip_with_def view_repeat_def)
  have lds: "length (rows (sub ?hebb ?nf)) = ?H"
    using lA lnf by (simp add: sub_def zip_with_def)
  have rds: "length (rows (sub ?hebb ?nf) ! i) = ?D" if "i < ?H" for i
    using that lA lnf rnf [OF that] by (simp add: sub_def zip_with_def)
  have "wf_tensor (sub ?hebb ?nf)"
    unfolding wf_tensor_def list_all_length
    using lds rds A(2) by (simp add: sub_def zip_with_def)
  moreover have "nrows (sub ?hebb ?nf) = ?H" "ncols (sub ?hebb ?nf) = ?D"
    using A(2) by (simp_all add: sub_def zip_with_def)
  ultimately show ?thesis using eq by blast
qed

lemma concat_nonempty:
  assumes "wf_tensor T" and "0 < nrows T" and "0 < ncols T"
  shows "concat (rows T) \<noteq> []"
proof -
  from assms have "rows T \<noteq> []" by (auto simp: wf_tensor_def)
  then obtain r rs where r: "rows T = r # rs" by (cases "rows T") auto
  with assms have "length r = ncols T" by (simp add: wf_tensor_def)
  with assms(3) r show ?thesis by auto
qed

lemma tmap_shape: "nrows (tmap f T) = nrows T" "ncols (tmap f T) = ncols T"
  "rows (tmap f T) = map (map f) (rows T)"
  by (simp_all add: tmap_def)

lemma tmap_wf: "wf_tensor T \<Longrightarrow> wf_tensor (tmap f T)"
  by (simp add: wf_tensor_def tmap_def list_all_iff)

lemma max_t_Max:
  assumes "concat (rows T) \<noteq> []"
  shows "max_t T = Inr (Max (set (concat (rows T))))"
proof (cases "concat (rows T)")
  case Nil
  with assms show ?thesis by blast
next
  case (Cons a as)
  have "max_t T = Inr (fold max as a)" by (simp add: max_t_def Cons)
  also have "fold max as a = Max (set (a # as))" by (rule Max.set_eq_fold [symmetric])
  finally show ?thesis by (simp only: Cons)
qed

lemma normalize_returns:
  assumes "wf_tensor ds" and "0 < nrows ds" and "0 < ncols ds"
  shows "\<exists>d. normalize self ds = Inr d \<and> wf_tensor d \<and> nrows d = nrows ds \<and> ncols d = ncols ds"
proof -
  have "concat (rows (abs_t ds)) \<noteq> []"
    using assms by (intro concat_nonempty) (simp_all add: abs_t_def tmap_wf tmap_shape)
  then show ?thesis
    using assms(1)
    by (simp add: normalize_def max_t_Max Let_def true_divide_def tmap_wf tmap_shape)
qed

text \<open>The stages of \<open>update\<close> on a valid call.\<close>

lemma update_stages:
  assumes X: "wf_tensor inputs" and W: "wf_tensor weights"
    and D: "ncols weights = ncols inputs" and B: "0 < nrows inputs"
    and k1: "1 \<le> k self" and kH: "k self \<le> int (nrows weights)"
    and T: "tot_input self (torch_t inputs) weights = Inr T"
    and ok: "topk_ok T (nat (k self)) (topk T (nat (k self)))"
  shows "\<exists>A ds. activations_topk topk self T (nrows weights) (nrows inputs) = Inr A
            \<and> raw_delta A T (torch_t inputs) weights (ncols inputs) = Inr ds
            \<and> update topk self inputs weights = normalize self ds
            \<and> wf_tensor A \<and> nrows A = nrows weights \<and> ncols A = nrows inputs
            \<and> wf_tensor ds \<and> nrows ds = nrows weights \<and> ncols ds = ncols inputs"
proof -
  from tot_input_shape [OF W D, of self] T
  have sh: "wf_tensor T" "nrows T = nrows weights" "ncols T = nrows inputs" by simp_all
  from activations_topk_entries [where T = T and self = self and topk = topk] sh ok k1
  obtain A where A: "activations_topk topk self T (nrows weights) (nrows inputs) = Inr A"
      "wf_tensor A" "nrows A = nrows weights" "ncols A = nrows inputs"
    by auto
  from raw_delta_shape [OF A(2-4) sh(1,2) W D]
  obtain ds where ds: "raw_delta A T (torch_t inputs) weights (ncols inputs) = Inr ds"
      "wf_tensor ds" "nrows ds = nrows weights" "ncols ds = ncols inputs"
    by blast
  have "update topk self inputs weights = normalize self ds"
    using B kH T A(1) ds(1) by (simp add: update_def Let_def)
  with A ds show ?thesis by blast
qed

lemma update_argsort_stages:
  assumes X: "wf_tensor inputs" and W: "wf_tensor weights"
    and D: "ncols weights = ncols inputs" and B: "0 < nrows inputs"
    and k1: "1 \<le> k self" and kH: "k self \<le> int (nrows weights)"
    and T: "tot_input self (torch_t inputs) weights = Inr T"
    and ok: "argsort_ok T (argsort T)"
  shows "\<exists>A ds. activations_argsort argsort self T (nrows weights) (nrows inputs) = Inr A
            \<and> raw_delta A T (torch_t inputs) weights (ncols inputs) = Inr ds
            \<and> update_argsort argsort self inputs weights = normalize self ds
            \<and> wf_tensor A \<and> nrows A = nrows weights \<and> ncols A = nrows inputs
            \<and> wf_tensor ds \<and> nrows ds = nrows weights \<and> ncols ds = ncols inputs"
proof -
  from tot_input_shape [OF W D, of self] T
  have sh: "wf_tensor T" "nrows T = nrows weights" "ncols T = nrows inputs" by simp_all
  from activations_argsort_entries [where T = T and self = self and argsort = argsort]
    sh ok k1 kH
  obtain A where A: "activations_argsort argsort self T (nrows weights) (nrows inputs) = Inr A"
      "wf_tensor A" "nrows A = nrows weights" "ncols A = nrows inputs"
    by auto
  from raw_delta_shape [OF A(2-4) sh(1,2) W D]
  obtain ds where ds: "raw_delta A T (torch_t inputs) weights (ncols inputs) = Inr ds"
      "wf_tensor ds" "nrows ds = nrows weights" "ncols ds = ncols inputs"
    by blast
  have "update_argsort argsort self inputs weights = normalize self ds"
    using B kH T A(1) ds(1) by (simp add: update_argsort_def Let_def)
  with A ds show ?thesis by blast
qed

section \<open>The overlap score\<close>

text \<open>
  C4. For a batch \<open>inputs\<close> of shape (B, D) and weights of shape (H, D), the overlap
  computed at line 39 is a tensor of shape (H, B) whose entry for hidden unit \<open>h\<close> and
  sample \<open>b\<close> is the sum over the features \<open>d\<close> of
  \<open>sign(W[h,d]) * |W[h,d]| ^ (norm - 1) * X[b,d]\<close>.
\<close>

theorem tot_input_entry:
  assumes X: "wf_tensor inputs" and W: "wf_tensor weights"
    and D: "ncols weights = ncols inputs"
  shows "\<exists>T. tot_input self (torch_t inputs) weights = Inr T
           \<and> nrows T = nrows weights \<and> ncols T = nrows inputs
           \<and> (\<forall>h<nrows weights. \<forall>b<nrows inputs.
                 entry T h b =
                   (\<Sum>d<ncols inputs. sgn (entry weights h d)
                        * \<bar>entry weights h d\<bar> powi (norm_p self - 1) * entry inputs b d))"
proof -
  let ?A = "mul (sign weights) (pow_t (abs_t weights) (norm_p self - 1))"
  let ?T = "\<lparr>nrows = nrows weights, ncols = nrows inputs,
           rows = map (\<lambda>ra. map (\<lambda>j. \<Sum>d\<leftarrow>[0..<ncols weights].
                                          ra ! d * rows (torch_t inputs) ! d ! j)
                                  [0..<nrows inputs]) (rows ?A)\<rparr>"
  have shapeA: "nrows ?A = nrows weights" "ncols ?A = ncols weights"
    by (simp_all add: mul_def zip_with_def sign_def tmap_def)
  have rowsA: "rows ?A = map (map (\<lambda>w. sgn w * \<bar>w\<bar> powi (norm_p self - 1))) (rows weights)"
    by (simp add: mul_def zip_with_def sign_def pow_t_def abs_t_def tmap_def map2_same)
  have eq: "tot_input self (torch_t inputs) weights = Inr ?T"
    using D by (simp add: tot_input_def matmul_def shapeA) (simp add: torch_t_def)
  have "entry ?T h b =
        (\<Sum>d<ncols inputs. sgn (entry weights h d)
                        * \<bar>entry weights h d\<bar> powi (norm_p self - 1) * entry inputs b d)"
    if h: "h < nrows weights" and b: "b < nrows inputs" for h b
  proof -
    have len: "length (rows weights) = nrows weights" "length (rows weights ! h) = ncols inputs"
      using W h D by (simp_all add: wf_tensor_def list_all_length)
    show ?thesis
      using h b len
      by (simp add: entry_def rowsA sum_list_upt_lessThan D torch_t_entry [OF X])
  qed
  with eq show ?thesis by simp
qed

theorem tot_input_entry_witness:
  "wf_tensor X_ex \<and> wf_tensor W_ex \<and> ncols W_ex = ncols X_ex
   \<and> (\<exists>T. tot_input rule_ex (torch_t X_ex) W_ex = Inr T
          \<and> entry T 1 0 = (\<Sum>d<ncols X_ex. sgn (entry W_ex 1 d)
                 * \<bar>entry W_ex 1 d\<bar> powi (norm_p rule_ex - 1) * entry X_ex 0 d)
          \<and> entry T 1 0 = 18)"
proof -
  have X: "wf_tensor X_ex" and W: "wf_tensor W_ex" and D: "ncols W_ex = ncols X_ex"
    by (simp_all add: wf_tensor_def X_ex_def W_ex_def)
  from tot_input_entry [OF X W D, of rule_ex] obtain T where
    T: "tot_input rule_ex (torch_t X_ex) W_ex = Inr T"
    and E: "\<forall>h<nrows W_ex. \<forall>b<nrows X_ex. entry T h b =
                   (\<Sum>d<ncols X_ex. sgn (entry W_ex h d)
                        * \<bar>entry W_ex h d\<bar> powi (norm_p rule_ex - 1) * entry X_ex b d)"
    by blast
  have "(1::nat) < nrows W_ex" "(0::nat) < nrows X_ex"
    by (simp_all add: X_ex_def W_ex_def)
  with E have E10: "entry T 1 0 = (\<Sum>d<ncols X_ex. sgn (entry W_ex 1 d)
                 * \<bar>entry W_ex 1 d\<bar> powi (norm_p rule_ex - 1) * entry X_ex 0 d)"
    by blast
  have "(\<Sum>d<ncols X_ex. sgn (entry W_ex 1 d)
                 * \<bar>entry W_ex 1 d\<bar> powi (norm_p rule_ex - 1) * entry X_ex 0 d) = 18"
    by (simp add: X_ex_def W_ex_def rule_ex_def KrotovsRule_init_def entry_def
        lessThan_nat_numeral lessThan_Suc power_int_def)
  with X W D T E10 show ?thesis by simp
qed

section \<open>The hidden-unit check\<close>

text \<open>
  C5, as the code has it. The constructor stores \<open>k\<close> unchecked; \<open>update\<close> and
  \<open>update_argsort\<close>, called on a batch with at least one sample and weights with fewer
  than \<open>k\<close> hidden units, raise the AssertionError of line 36 (line 69) whatever the
  selection routine and whatever the entries of the tensors: no score, activation or
  delta is computed.
\<close>

theorem update_asserts_k:
  assumes "0 < nrows inputs" and "int (nrows weights) < k self"
  shows "update topk self inputs weights = Inl (AssertionError assert_msg)
       \<and> update_argsort argsort self inputs weights = Inl (AssertionError assert_msg)"
  using assms by (simp add: update_def update_argsort_def Let_def)

theorem update_asserts_k_witness:
  "0 < nrows X_ex \<and> int (nrows W_ex) < k (KrotovsRule_init (1 / 10 ^ 30) (2 / 5) 3 4)
   \<and> update topk_stable (KrotovsRule_init (1 / 10 ^ 30) (2 / 5) 3 4) X_ex W_ex
       = Inl (AssertionError assert_msg)
   \<and> update_argsort argsort_stable (KrotovsRule_init (1 / 10 ^ 30) (2 / 5) 3 4) X_ex W_ex
       = Inl (AssertionError assert_msg)"
proof -
  have h: "0 < nrows X_ex" "int (nrows W_ex) < k (KrotovsRule_init (1 / 10 ^ 30) (2 / 5) 3 4)"
    by (simp_all add: X_ex_def W_ex_def KrotovsRule_init_def)
  from update_asserts_k [OF h, of topk_stable argsort_stable] h show ?thesis by simp
qed

text \<open>
  The constructor called with \<open>k = 4\<close> returns a rule holding \<open>k = 4\<close>; the failure on
  weights with three hidden units comes from \<open>update\<close>.
\<close>

theorem init_unchecked_counterexample:
  "k (KrotovsRule_init (1 / 10 ^ 30) (2 / 5) 3 4) = 4 \<and> nrows W_ex = 3
   \<and> KrotovsRule_init (1 / 10 ^ 30) (2 / 5) 3 4
       = \<lparr>precision = 1 / 10 ^ 30, delta = 2 / 5, norm_p = 3, k = 4\<rparr>"
  by (simp add: KrotovsRule_init_def W_ex_def)

section \<open>The two selection strategies\<close>

lemma activations_agree:
  assumes wf: "wf_tensor T" and tk: "topk_ok T (nat (k self)) (topk T (nat (k self)))"
    and as: "argsort_ok T (argsort T)" and nt: "no_ties T" and B: "0 < ncols T"
    and k1: "1 \<le> k self" and kH: "k self \<le> int (nrows T)"
  shows "activations_topk topk self T (nrows T) (ncols T)
           = activations_argsort argsort self T (nrows T) (ncols T)"
proof -
  let ?ind = "topk T (nat (k self))" and ?y = "argsort T"
  from tk have leni: "length ?ind = nat (k self)" by (simp add: topk_ok_def)
  from as have leny: "length ?y = nrows T" by (simp add: argsort_ok_def)
  have j0: "0 < nat (k self)" and jk: "nat (k self - 1) < nat (k self)" using k1 by simp_all
  have r0: "?ind ! 0 = ?y ! (nrows T - 1)"
    using selection_rows_agree [OF wf tk as nt B j0] by simp
  have "nrows T - 1 - nat (k self - 1) = nrows T - nat (k self)" using k1 by simp
  then have rk: "?ind ! nat (k self - 1) = ?y ! (nrows T - nat (k self))"
    using selection_rows_agree [OF wf tk as nt B jk] by simp
  have p0: "py_index ?ind 0 = Inr (?ind ! 0)"
    using leni j0 py_index_nat [of 0 ?ind] by simp
  have pk: "py_index ?ind (k self - 1) = Inr (?ind ! nat (k self - 1))"
    using leni jk k1 py_index_nat [of "k self - 1" ?ind] by simp
  have i0: "nrows T - 1 < nrows T" and ik: "nrows T - nat (k self) < nrows T"
    using k1 kH by simp_all
  have n0: "nat (int (nrows T) - 1) = nrows T - 1" by simp
  have nk: "nat (int (nrows T) - k self) = nrows T - nat (k self)" using k1 by simp
  have q0: "py_index ?y (int (nrows T) - 1) = Inr (?y ! (nrows T - 1))"
    using leny i0 k1 kH py_index_nat [of "int (nrows T) - 1" ?y] by (simp add: n0)
  have qk: "py_index ?y (int (nrows T) - k self) = Inr (?y ! (nrows T - nat (k self)))"
    using leny ik k1 kH py_index_nat [of "int (nrows T) - k self" ?y] by (simp add: nk)
  show ?thesis
    using k1
    by (simp add: activations_topk_def activations_argsort_def Let_def p0 pk q0 qk r0 rk
        cong: sum.case_cong)
qed

text \<open>
  C1, as the code has it. On a valid call (a batch with at least one sample and one
  feature, weights with as many features, 1 \<le> k \<le> H), with selection results that meet
  the library's contracts and scores without exact ties within a sample, \<open>update\<close> and
  \<open>update_argsort\<close> return the same delta.
\<close>

theorem update_eq_update_argsort:
  assumes X: "wf_tensor inputs" and W: "wf_tensor weights"
    and D: "ncols weights = ncols inputs" and B: "0 < nrows inputs" and D0: "0 < ncols inputs"
    and k1: "1 \<le> k self" and kH: "k self \<le> int (nrows weights)"
    and T: "tot_input self (torch_t inputs) weights = Inr T"
    and tk: "topk_ok T (nat (k self)) (topk T (nat (k self)))"
    and as: "argsort_ok T (argsort T)" and nt: "no_ties T"
  shows "\<exists>d. update topk self inputs weights = Inr d
            \<and> update_argsort argsort self inputs weights = Inr d"
proof -
  from tot_input_shape [OF W D, of self] T
  have sh: "wf_tensor T" "nrows T = nrows weights" "ncols T = nrows inputs" by simp_all
  from update_stages [where topk = topk, OF X W D B k1 kH T tk]
  obtain A ds where a: "activations_topk topk self T (nrows weights) (nrows inputs) = Inr A"
      "raw_delta A T (torch_t inputs) weights (ncols inputs) = Inr ds"
      "update topk self inputs weights = normalize self ds"
      "wf_tensor ds" "nrows ds = nrows weights" "ncols ds = ncols inputs"
    by blast
  from update_argsort_stages [where argsort = argsort, OF X W D B k1 kH T as]
  obtain A' ds' where b: "activations_argsort argsort self T (nrows weights) (nrows inputs) = Inr A'"
      "raw_delta A' T (torch_t inputs) weights (ncols inputs) = Inr ds'"
      "update_argsort argsort self inputs weights = normalize self ds'"
    by blast
  have "activations_topk topk self T (nrows weights) (nrows inputs)
          = activations_argsort argsort self T (nrows weights) (nrows inputs)"
    using activations_agree [where topk = topk and argsort = argsort, OF sh(1) tk as nt] B k1 kH sh
    by simp
  with a(1) b(1) have "A' = A" by simp
  with a(2) b(2) have "ds' = ds" by simp
  with a(3) b(3) have same: "update_argsort argsort self inputs weights
      = update topk self inputs weights" by simp
  have "0 < nrows ds" using a(5) k1 kH by simp
  moreover have "0 < ncols ds" using a(6) D0 by simp
  ultimately obtain d where "normalize self ds = Inr d"
    using normalize_returns [OF a(4), of self] by blast
  with a(3) same show ?thesis by simp
qed

lemma ex_facts:
  "wf_tensor X_ex" "wf_tensor W_ex" "ncols W_ex = ncols X_ex" "0 < nrows X_ex" "0 < ncols X_ex"
  by (simp_all add: wf_tensor_def X_ex_def W_ex_def)

lemma ex_rule: "1 \<le> k rule_ex" "k rule_ex \<le> int (nrows W_ex)" "nat (k rule_ex) = 2" "k rule_ex = 2"
  by (simp_all add: rule_ex_def KrotovsRule_init_def W_ex_def)

lemma ex_tot: "tot_input rule_ex (torch_t X_ex) W_ex = Inr T_ex"
  by code_simp

lemma ex_topk: "topk_ok T_ex 2 (topk_stable T_ex 2)"
  by code_simp

lemma ex_argsort: "argsort_ok T_ex (argsort_stable T_ex)"
  by code_simp

lemma ex_no_ties: "no_ties T_ex"
  by code_simp

theorem update_eq_update_argsort_witness:
  "wf_tensor X_ex \<and> wf_tensor W_ex \<and> ncols W_ex = ncols X_ex \<and> 0 < nrows X_ex
   \<and> 0 < ncols X_ex \<and> 1 \<le> k rule_ex \<and> k rule_ex \<le> int (nrows W_ex)
   \<and> tot_input rule_ex (torch_t X_ex) W_ex = Inr T_ex
   \<and> topk_ok T_ex (nat (k rule_ex)) (topk_stable T_ex (nat (k rule_ex)))
   \<and> argsort_ok T_ex (argsort_stable T_ex) \<and> no_ties T_ex
   \<and> (\<exists>d. update topk_stable rule_ex X_ex W_ex = Inr d
          \<and> update_argsort argsort_stable rule_ex X_ex W_ex = Inr d)"
proof -
  have tk: "topk_ok T_ex (nat (k rule_ex)) (topk_stable T_ex (nat (k rule_ex)))"
    using ex_topk by (simp add: ex_rule)
  from update_eq_update_argsort [where topk = topk_stable and argsort = argsort_stable,
      OF ex_facts ex_rule(1,2) ex_tot tk ex_argsort ex_no_ties]
  show ?thesis using ex_facts ex_rule(1,2) ex_tot tk ex_argsort ex_no_ties by simp
qed

text \<open>
  Two hidden units with the same score for the one sample: a top-k that lists unit 0
  first and an argsort that lists unit 0 first both meet their contracts, and the two
  methods then pick opposite winners and return different deltas.
\<close>

theorem update_tie_counterexample:
  "wf_tensor X_tie \<and> wf_tensor W_tie \<and> 0 < nrows X_tie \<and> k rule_tie \<le> int (nrows W_tie)
   \<and> tot_input rule_tie (torch_t X_tie) W_tie = Inr T_tie
   \<and> topk_ok T_tie 2 (topk_stable T_tie 2) \<and> argsort_ok T_tie (argsort_stable T_tie)
   \<and> update topk_stable rule_tie X_tie W_tie
        = Inr \<lparr>nrows = 2, ncols = 2, rows = [[0, 0], [0, 1]]\<rparr>
   \<and> update_argsort argsort_stable rule_tie X_tie W_tie
        = Inr \<lparr>nrows = 2, ncols = 2, rows = [[0, 0], [0, - 1]]\<rparr>"
  by code_simp

section \<open>The activations for \<open>k = 2\<close> and \<open>k = 1\<close>\<close>

lemma topk_rank:
  assumes T: "is_topk v n idx" and dv: "distinct v" and j: "j < n"
    and h: "h < length v" and nh: "h \<notin> set (take (Suc j) idx)"
  shows "v ! h < v ! (idx ! j)"
proof -
  from T have len: "length idx = n" and rng: "\<forall>i\<in>set idx. i < length v"
    by (simp_all add: is_topk_def list_all_iff)
  have "set (take j idx) \<subseteq> set (take (Suc j) idx)"
    by (rule set_take_subset_set_take) simp
  with nh have "h \<notin> set (take j idx)" by blast
  with is_topk_greater [OF T dv j] h have "\<not> v ! (idx ! j) < v ! h" by blast
  moreover have "idx ! j \<in> set (take (Suc j) idx)"
    using j len by (simp add: take_Suc_conv_app_nth)
  with nh have "h \<noteq> idx ! j" by blast
  moreover have "idx ! j < length v" using rng j len by simp
  ultimately have "\<not> v ! (idx ! j) < v ! h" and "v ! h \<noteq> v ! (idx ! j)"
    using dv h by (simp_all add: nth_eq_iff_index_eq)
  then show ?thesis by linarith
qed

lemma topk_first_max:
  assumes T: "is_topk v n idx" and n: "0 < n" and h: "h < length v"
  shows "v ! h \<le> v ! (idx ! 0)"
proof -
  from T have len: "length idx = n"
    and srt: "sorted_wrt (\<lambda>a b. v ! b \<le> v ! a) idx"
    and out: "\<forall>h<length v. h \<in> set idx \<or> (\<forall>i\<in>set idx. v ! h \<le> v ! i)"
    by (simp_all add: is_topk_def list_all_iff)
  have in0: "idx ! 0 \<in> set idx" using len n by simp
  show ?thesis
  proof (cases "h \<in> set idx")
    case False
    with out h in0 show ?thesis by blast
  next
    case True
    then obtain i where i: "i < n" "idx ! i = h" using len by (auto simp: in_set_conv_nth)
    show ?thesis
    proof (cases "i = 0")
      case True with i show ?thesis by simp
    next
      case False
      then have "0 < i" by simp
      with srt i len show ?thesis by (auto simp: sorted_wrt_iff_nth_less)
    qed
  qed
qed

text \<open>
  C3. For \<open>k = 2\<close> and scores without exact ties, the activation matrix of lines 45 to 47
  holds, for every sample, +1 at the one hidden unit with the highest score, \<open>-delta\<close> at
  a different hidden unit, the one with the highest score among the rest, and 0 at every
  other hidden unit.
\<close>

theorem activations_k2:
  assumes W: "wf_tensor weights" and D: "ncols weights = ncols inputs"
    and k2: "k self = 2" and H: "k self \<le> int (nrows weights)"
    and T: "tot_input self (torch_t inputs) weights = Inr T"
    and tk: "topk_ok T 2 (topk T 2)" and nt: "no_ties T"
  shows "\<exists>A. activations_topk topk self T (nrows weights) (nrows inputs) = Inr A
           \<and> (\<forall>b<nrows inputs. \<exists>w s. w < nrows weights \<and> s < nrows weights \<and> w \<noteq> s
                 \<and> (\<forall>h<nrows weights. h \<noteq> w \<longrightarrow> entry T h b < entry T w b)
                 \<and> (\<forall>h<nrows weights. h \<noteq> w \<longrightarrow> h \<noteq> s \<longrightarrow> entry T h b < entry T s b)
                 \<and> (\<forall>h<nrows weights. entry A h b
                        = (if h = w then 1 else if h = s then - delta self else 0)))"
proof -
  from tot_input_shape [OF W D, of self] T
  have sh: "wf_tensor T" "nrows T = nrows weights" "ncols T = nrows inputs" by simp_all
  let ?ind = "topk T 2"
  have tk': "topk_ok T (nat (k self)) (topk T (nat (k self)))" using tk k2 by simp
  from activations_topk_entries [where topk = topk and self = self, OF sh(1) tk'] k2 sh
  obtain A where A: "activations_topk topk self T (nrows weights) (nrows inputs) = Inr A"
      and ent: "\<forall>h<nrows weights. \<forall>b<nrows inputs. rows A ! h ! b
                 = (if ?ind ! 1 ! b = h then - delta self
                    else if ?ind ! 0 ! b = h then 1 else 0)"
    by auto
  from tk have leni: "length ?ind = 2" by (simp add: topk_ok_def)
  have "\<exists>w s. w < nrows weights \<and> s < nrows weights \<and> w \<noteq> s
                 \<and> (\<forall>h<nrows weights. h \<noteq> w \<longrightarrow> entry T h b < entry T w b)
                 \<and> (\<forall>h<nrows weights. h \<noteq> w \<longrightarrow> h \<noteq> s \<longrightarrow> entry T h b < entry T s b)
                 \<and> (\<forall>h<nrows weights. entry A h b
                        = (if h = w then 1 else if h = s then - delta self else 0))"
    if b: "b < nrows inputs" for b
  proof -
    let ?v = "column (rows T) b" and ?idx = "column ?ind b"
    let ?w = "?ind ! 0 ! b" and ?s = "?ind ! 1 ! b"
    from tk b sh have Tk: "is_topk ?v 2 ?idx" by (simp add: topk_ok_def list_all_iff)
    from nt b sh have dv: "distinct ?v" by (simp add: no_ties_def list_all_iff)
    have lv: "length ?v = nrows weights" using sh by (simp add: column_length wf_tensor_def)
    have vn: "?v ! h = entry T h b" if "h < nrows weights" for h
      using that sh by (simp add: column_nth entry_def wf_tensor_def)
    have i0: "?idx ! 0 = ?w" and i1: "?idx ! 1 = ?s" using leni by (simp_all add: column_nth)
    from Tk have li: "length ?idx = 2" and di: "distinct ?idx"
      and rng: "\<forall>i\<in>set ?idx. i < length ?v"
      by (simp_all add: is_topk_def list_all_iff)
    have idx: "?idx = [?w, ?s]"
      using li i0 i1 by (intro nth_equalityI) (auto simp: less_Suc_eq numeral_2_eq_2)
    have ws: "?w \<noteq> ?s" using di unfolding idx by simp
    have wr: "?w < nrows weights" and sr: "?s < nrows weights"
      using rng lv unfolding idx by simp_all
    have top: "entry T h b < entry T ?w b" if "h < nrows weights" "h \<noteq> ?w" for h
    proof -
      have "h \<notin> set (take (Suc 0) ?idx)" using that unfolding idx by simp
      from topk_rank [OF Tk dv _ _ this] that lv have "?v ! h < ?v ! (?idx ! 0)" by simp
      then have "?v ! h < ?v ! ?w" by (simp only: i0)
      then show ?thesis using vn [OF that(1)] vn [OF wr] by simp
    qed
    have snd: "entry T h b < entry T ?s b" if "h < nrows weights" "h \<noteq> ?w" "h \<noteq> ?s" for h
    proof -
      have "h \<notin> set (take (Suc 1) ?idx)" using that unfolding idx by simp
      from topk_rank [OF Tk dv _ _ this] that lv have "?v ! h < ?v ! (?idx ! 1)" by simp
      then have "?v ! h < ?v ! ?s" by (simp only: i1)
      then show ?thesis using vn [OF that(1)] vn [OF sr] by simp
    qed
    have act: "entry A h b = (if h = ?w then 1 else if h = ?s then - delta self else 0)"
      if "h < nrows weights" for h
      using ent that b ws by (auto simp: entry_def)
    from wr sr ws top snd act show ?thesis by blast
  qed
  with A show ?thesis by blast
qed

theorem activations_k2_witness:
  "wf_tensor W_ex \<and> ncols W_ex = ncols X_ex \<and> k rule_ex = 2 \<and> k rule_ex \<le> int (nrows W_ex)
   \<and> tot_input rule_ex (torch_t X_ex) W_ex = Inr T_ex
   \<and> topk_ok T_ex 2 (topk_stable T_ex 2) \<and> no_ties T_ex
   \<and> (\<exists>A. activations_topk topk_stable rule_ex T_ex (nrows W_ex) (nrows X_ex) = Inr A
         \<and> (\<forall>b<nrows X_ex. \<exists>w s. w < nrows W_ex \<and> s < nrows W_ex \<and> w \<noteq> s
               \<and> (\<forall>h<nrows W_ex. h \<noteq> w \<longrightarrow> entry T_ex h b < entry T_ex w b)
               \<and> (\<forall>h<nrows W_ex. h \<noteq> w \<longrightarrow> h \<noteq> s \<longrightarrow> entry T_ex h b < entry T_ex s b)
               \<and> (\<forall>h<nrows W_ex. entry A h b
                      = (if h = w then 1 else if h = s then - delta rule_ex else 0))))"
  using activations_k2 [where topk = topk_stable,
      OF ex_facts(2,3) ex_rule(4,2) ex_tot ex_topk ex_no_ties]
    ex_facts(2,3) ex_rule(4,2) ex_tot ex_topk ex_no_ties
  by simp

text \<open>
  C6, as the code has it. For \<open>k = 1\<close>, on a valid call \<open>update\<close> returns a delta without
  raising. Line 47 writes \<open>-delta\<close> over the +1 that line 46 gave the winner: for every
  sample the activation matrix holds \<open>-delta\<close> at a hidden unit with the highest score and
  0 at every other hidden unit.
\<close>

theorem update_k1:
  assumes X: "wf_tensor inputs" and W: "wf_tensor weights"
    and D: "ncols weights = ncols inputs" and B: "0 < nrows inputs" and D0: "0 < ncols inputs"
    and k1: "k self = 1" and H: "k self \<le> int (nrows weights)"
    and T: "tot_input self (torch_t inputs) weights = Inr T"
    and tk: "topk_ok T 1 (topk T 1)"
  shows "\<exists>A d. activations_topk topk self T (nrows weights) (nrows inputs) = Inr A
           \<and> update topk self inputs weights = Inr d
           \<and> (\<forall>b<nrows inputs. \<exists>w<nrows weights.
                 (\<forall>h<nrows weights. entry T h b \<le> entry T w b)
                 \<and> (\<forall>h<nrows weights. entry A h b = (if h = w then - delta self else 0)))"
proof -
  from tot_input_shape [OF W D, of self] T
  have sh: "wf_tensor T" "nrows T = nrows weights" "ncols T = nrows inputs" by simp_all
  let ?ind = "topk T 1"
  have tk': "topk_ok T (nat (k self)) (topk T (nat (k self)))" using tk k1 by simp
  have k1': "1 \<le> k self" using k1 by simp
  from update_stages [where topk = topk, OF X W D B k1' H T tk']
  obtain A ds where A: "activations_topk topk self T (nrows weights) (nrows inputs) = Inr A"
      and upd: "update topk self inputs weights = normalize self ds"
      and ds: "wf_tensor ds" "nrows ds = nrows weights" "ncols ds = ncols inputs"
    by blast
  have "0 < nrows ds" "0 < ncols ds" using ds H k1 D0 by simp_all
  from normalize_returns [OF ds(1) this, of self] upd
  obtain d where d: "update topk self inputs weights = Inr d" by auto
  from activations_topk_entries [where topk = topk and self = self, OF sh(1) tk'] k1 sh A
  have ent: "\<forall>h<nrows weights. \<forall>b<nrows inputs. rows A ! h ! b
                 = (if ?ind ! 0 ! b = h then - delta self
                    else if ?ind ! 0 ! b = h then 1 else 0)"
    by auto
  from tk have leni: "length ?ind = 1" by (simp add: topk_ok_def)
  have "\<exists>w<nrows weights. (\<forall>h<nrows weights. entry T h b \<le> entry T w b)
          \<and> (\<forall>h<nrows weights. entry A h b = (if h = w then - delta self else 0))"
    if b: "b < nrows inputs" for b
  proof -
    let ?v = "column (rows T) b" and ?idx = "column ?ind b"
    let ?w = "?ind ! 0 ! b"
    from tk b sh have Tk: "is_topk ?v 1 ?idx" by (simp add: topk_ok_def list_all_iff)
    have lv: "length ?v = nrows weights" using sh by (simp add: column_length wf_tensor_def)
    have vn: "?v ! h = entry T h b" if "h < nrows weights" for h
      using that sh by (simp add: column_nth entry_def wf_tensor_def)
    have i0: "?idx ! 0 = ?w" using leni by (simp add: column_nth)
    from Tk have li: "length ?idx = 1" and rng: "\<forall>i\<in>set ?idx. i < length ?v"
      by (simp_all add: is_topk_def list_all_iff)
    have "?idx ! 0 \<in> set ?idx" using li by simp
    with rng have "?idx ! 0 < length ?v" by blast
    then have wr: "?w < nrows weights" unfolding i0 lv .
    have top: "entry T h b \<le> entry T ?w b" if "h < nrows weights" for h
    proof -
      from topk_first_max [OF Tk] that lv have "?v ! h \<le> ?v ! (?idx ! 0)" by simp
      then have "?v ! h \<le> ?v ! ?w" by (simp only: i0)
      then show ?thesis using vn [OF that] vn [OF wr] by simp
    qed
    have act: "entry A h b = (if h = ?w then - delta self else 0)"
      if "h < nrows weights" for h
      using ent that b by (auto simp: entry_def)
    from wr top act show ?thesis by blast
  qed
  with A d show ?thesis by blast
qed

lemma k1_rule: "k rule_k1 = 1" "k rule_k1 \<le> int (nrows W_ex)"
  by (simp_all add: rule_k1_def KrotovsRule_init_def W_ex_def)

lemma k1_tot: "tot_input rule_k1 (torch_t X_ex) W_ex = Inr T_ex"
  by code_simp

lemma k1_topk: "topk_ok T_ex 1 (topk_stable T_ex 1)"
  by code_simp

theorem update_k1_witness:
  "wf_tensor X_ex \<and> wf_tensor W_ex \<and> ncols W_ex = ncols X_ex \<and> 0 < nrows X_ex
   \<and> 0 < ncols X_ex \<and> k rule_k1 = 1 \<and> k rule_k1 \<le> int (nrows W_ex)
   \<and> tot_input rule_k1 (torch_t X_ex) W_ex = Inr T_ex \<and> topk_ok T_ex 1 (topk_stable T_ex 1)
   \<and> (\<exists>A d. activations_topk topk_stable rule_k1 T_ex (nrows W_ex) (nrows X_ex) = Inr A
           \<and> update topk_stable rule_k1 X_ex W_ex = Inr d
           \<and> (\<forall>b<nrows X_ex. \<exists>w<nrows W_ex.
                 (\<forall>h<nrows W_ex. entry T_ex h b \<le> entry T_ex w b)
                 \<and> (\<forall>h<nrows W_ex. entry A h b = (if h = w then - delta rule_k1 else 0))))"
  using update_k1 [where topk = topk_stable, OF ex_facts k1_rule k1_tot k1_topk]
    ex_facts k1_rule k1_tot k1_topk
  by simp

text \<open>
  With \<open>k = 1\<close> and \<open>delta = 2/5\<close> the winner of both samples (hidden unit 1) keeps the
  activation \<open>-2/5\<close>, and its row of the raw delta and of the returned delta is not zero.
\<close>

theorem update_k1_counterexample:
  "k rule_k1 = 1 \<and> delta rule_k1 = 2 / 5
   \<and> tot_input rule_k1 (torch_t X_ex) W_ex = Inr T_ex \<and> topk_ok T_ex 1 (topk_stable T_ex 1)
   \<and> activations_topk topk_stable rule_k1 T_ex 3 2
        = Inr \<lparr>nrows = 3, ncols = 2, rows = [[0, 0], [- (2 / 5), - (2 / 5)], [0, 0]]\<rparr>
   \<and> raw_delta \<lparr>nrows = 3, ncols = 2, rows = [[0, 0], [- (2 / 5), - (2 / 5)], [0, 0]]\<rparr>
         T_ex (torch_t X_ex) W_ex 3
        = Inr \<lparr>nrows = 3, ncols = 3,
               rows = [[0, 0, 0], [- (2 / 5), - (54 / 5), 30], [0, 0, 0]]\<rparr>
   \<and> update topk_stable rule_k1 X_ex W_ex
        = Inr \<lparr>nrows = 3, ncols = 3,
               rows = [[0, 0, 0], [- (1 / 75), - (9 / 25), 1], [0, 0, 0]]\<rparr>"
  by code_simp

section \<open>The normalisation of the delta\<close>

lemma concat_tmap: "concat (rows (tmap f T)) = map f (concat (rows T))"
  by (simp add: tmap_def map_concat)

lemma normalize_eq:
  assumes ne: "concat (rows ds) \<noteq> []"
  shows "normalize self ds =
           Inr (true_divide ds
                  (if Max (set (map abs (concat (rows ds)))) < precision self
                   then precision self else Max (set (map abs (concat (rows ds))))))"
proof -
  have "concat (rows (abs_t ds)) \<noteq> []" using ne by (simp add: abs_t_def concat_tmap)
  from max_t_Max [OF this] show ?thesis
    by (simp add: normalize_def Let_def abs_t_def concat_tmap)
qed

lemma normalize_large:
  assumes ne: "concat (rows ds) \<noteq> []" and prec: "0 < precision self"
    and big: "\<exists>x\<in>set (concat (rows ds)). precision self \<le> \<bar>x\<bar>"
  shows "\<exists>d. normalize self ds = Inr d \<and> max_t (abs_t d) = Inr 1"
proof -
  let ?S = "concat (rows ds)"
  let ?nc = "Max (set (map abs ?S))"
  have fin: "finite (set (map abs ?S))" and ne': "set (map abs ?S) \<noteq> {}"
    using ne by simp_all
  from big obtain x where x: "x \<in> set ?S" "precision self \<le> \<bar>x\<bar>" by blast
  then have "\<bar>x\<bar> \<in> set (map abs ?S)" by simp
  then have "\<bar>x\<bar> \<le> ?nc" using fin by (intro Max_ge)
  with x(2) prec have ncp: "precision self \<le> ?nc" "0 < ?nc" by linarith+
  let ?d = "true_divide ds ?nc"
  have nd: "normalize self ds = Inr ?d"
    using ncp by (simp add: normalize_eq [OF ne])
  have cd: "concat (rows (abs_t ?d)) = map (\<lambda>x. \<bar>x / ?nc\<bar>) ?S"
    by (simp add: abs_t_def true_divide_def concat_tmap)
  have ned: "concat (rows (abs_t ?d)) \<noteq> []" unfolding cd using ne by simp
  have mx: "Max (set (map (\<lambda>x. \<bar>x / ?nc\<bar>) ?S)) = 1"
  proof (rule Max_eqI)
    show "finite (set (map (\<lambda>x. \<bar>x / ?nc\<bar>) ?S))" by simp
  next
    fix y assume "y \<in> set (map (\<lambda>x. \<bar>x / ?nc\<bar>) ?S)"
    then obtain z where z: "z \<in> set ?S" "y = \<bar>z / ?nc\<bar>" by auto
    then have "\<bar>z\<bar> \<in> set (map abs ?S)" by simp
    then have "\<bar>z\<bar> \<le> ?nc" using fin by (intro Max_ge)
    then show "y \<le> 1" using z ncp by simp
  next
    from Max_in [OF fin ne'] obtain z where z: "z \<in> set ?S" "?nc = \<bar>z\<bar>" by auto
    then have "\<bar>z / ?nc\<bar> = 1" using ncp by simp
    with z show "1 \<in> set (map (\<lambda>x. \<bar>x / ?nc\<bar>) ?S)" by force
  qed
  have "max_t (abs_t ?d) = Inr (Max (set (map (\<lambda>x. \<bar>x / ?nc\<bar>) ?S)))"
    using max_t_Max [OF ned] unfolding cd .
  then have "max_t (abs_t ?d) = Inr 1" by (simp only: mx)
  with nd show ?thesis by blast
qed

lemma normalize_small:
  assumes ne: "concat (rows ds) \<noteq> []"
    and small: "\<forall>x\<in>set (concat (rows ds)). \<bar>x\<bar> < precision self"
  shows "normalize self ds = Inr (true_divide ds (precision self))"
proof -
  let ?S = "concat (rows ds)"
  have fin: "finite (set (map abs ?S))" and ne': "set (map abs ?S) \<noteq> {}"
    using ne by simp_all
  from Max_in [OF fin ne'] obtain z where z: "z \<in> set ?S" "Max (set (map abs ?S)) = \<bar>z\<bar>"
    by auto
  from small z(1) have "\<bar>z\<bar> < precision self" by blast
  then have "Max (set (map abs ?S)) < precision self" by (simp only: z(2))
  then show ?thesis by (simp add: normalize_eq [OF ne])
qed

text \<open>
  C2. On a valid call with a positive \<open>precision\<close>, let \<open>ds\<close> be the raw delta of lines 50
  to 54. If some entry of \<open>ds\<close> has absolute value at least \<open>precision\<close>, \<open>update\<close> returns a
  delta whose largest absolute entry is exactly 1. If every entry has absolute value
  below \<open>precision\<close>, \<open>update\<close> returns \<open>ds\<close> divided by \<open>precision\<close>, and raises nothing.
\<close>

theorem update_normalized:
  assumes X: "wf_tensor inputs" and W: "wf_tensor weights"
    and D: "ncols weights = ncols inputs" and B: "0 < nrows inputs" and D0: "0 < ncols inputs"
    and k1: "1 \<le> k self" and kH: "k self \<le> int (nrows weights)"
    and prec: "0 < precision self"
    and T: "tot_input self (torch_t inputs) weights = Inr T"
    and tk: "topk_ok T (nat (k self)) (topk T (nat (k self)))"
    and act: "activations_topk topk self T (nrows weights) (nrows inputs) = Inr A"
    and raw: "raw_delta A T (torch_t inputs) weights (ncols inputs) = Inr ds"
  shows "((\<exists>x\<in>set (concat (rows ds)). precision self \<le> \<bar>x\<bar>) \<longrightarrow>
            (\<exists>d. update topk self inputs weights = Inr d \<and> max_t (abs_t d) = Inr 1))
       \<and> ((\<forall>x\<in>set (concat (rows ds)). \<bar>x\<bar> < precision self) \<longrightarrow>
            update topk self inputs weights = Inr (true_divide ds (precision self)))"
proof -
  from update_stages [where topk = topk, OF X W D B k1 kH T tk] act raw
  have upd: "update topk self inputs weights = normalize self ds"
    and ds: "wf_tensor ds" "nrows ds = nrows weights" "ncols ds = ncols inputs"
    by auto
  have "0 < nrows ds" "0 < ncols ds" using ds k1 kH D0 by simp_all
  from concat_nonempty [OF ds(1) this] have ne: "concat (rows ds) \<noteq> []" .
  show ?thesis
    unfolding upd using normalize_large [OF ne prec] normalize_small [OF ne] by blast
qed

lemma ex_prec: "0 < precision rule_ex"
  by (simp add: rule_ex_def KrotovsRule_init_def)

lemma ex_act: "activations_topk topk_stable rule_ex T_ex (nrows W_ex) (nrows X_ex) = Inr A_ex"
  by code_simp

lemma ex_raw: "raw_delta A_ex T_ex (torch_t X_ex) W_ex (ncols X_ex) = Inr ds_ex"
  by code_simp

lemma ex_big: "\<exists>x\<in>set (concat (rows ds_ex)). precision rule_ex \<le> \<bar>x\<bar>"
  by code_simp

lemma zero_facts: "wf_tensor X_zero" "ncols W_ex = ncols X_zero" "0 < nrows X_zero"
  "0 < ncols X_zero"
  by (simp_all add: wf_tensor_def X_zero_def W_ex_def)

lemma zero_tot: "tot_input rule_ex (torch_t X_zero) W_ex = Inr T_zero"
  by code_simp

lemma zero_topk: "topk_ok T_zero 2 (topk_stable T_zero 2)"
  by code_simp

lemma zero_act: "activations_topk topk_stable rule_ex T_zero (nrows W_ex) (nrows X_zero) = Inr A_zero"
  by code_simp

lemma zero_raw: "raw_delta A_zero T_zero (torch_t X_zero) W_ex (ncols X_zero) = Inr ds_zero"
  by code_simp

lemma zero_small: "\<forall>x\<in>set (concat (rows ds_zero)). \<bar>x\<bar> < precision rule_ex"
  by code_simp

theorem update_normalized_witness:
  "wf_tensor X_ex \<and> wf_tensor X_zero \<and> wf_tensor W_ex \<and> ncols W_ex = ncols X_ex
   \<and> ncols W_ex = ncols X_zero \<and> 0 < nrows X_ex \<and> 0 < ncols X_ex \<and> 0 < nrows X_zero
   \<and> 0 < ncols X_zero \<and> 1 \<le> k rule_ex \<and> k rule_ex \<le> int (nrows W_ex)
   \<and> 0 < precision rule_ex
   \<and> tot_input rule_ex (torch_t X_ex) W_ex = Inr T_ex
   \<and> topk_ok T_ex 2 (topk_stable T_ex 2)
   \<and> activations_topk topk_stable rule_ex T_ex (nrows W_ex) (nrows X_ex) = Inr A_ex
   \<and> raw_delta A_ex T_ex (torch_t X_ex) W_ex (ncols X_ex) = Inr ds_ex
   \<and> (\<exists>x\<in>set (concat (rows ds_ex)). precision rule_ex \<le> \<bar>x\<bar>)
   \<and> (\<exists>d. update topk_stable rule_ex X_ex W_ex = Inr d \<and> max_t (abs_t d) = Inr 1)
   \<and> tot_input rule_ex (torch_t X_zero) W_ex = Inr T_zero
   \<and> topk_ok T_zero 2 (topk_stable T_zero 2)
   \<and> activations_topk topk_stable rule_ex T_zero (nrows W_ex) (nrows X_zero) = Inr A_zero
   \<and> raw_delta A_zero T_zero (torch_t X_zero) W_ex (ncols X_zero) = Inr ds_zero
   \<and> list_all (\<lambda>x. \<bar>x\<bar> < precision rule_ex) (concat (rows ds_zero))
   \<and> update topk_stable rule_ex X_zero W_ex = Inr (true_divide ds_zero (precision rule_ex))"
proof -
  have tk: "topk_ok T_ex (nat (k rule_ex)) (topk_stable T_ex (nat (k rule_ex)))"
    using ex_topk by (simp add: ex_rule)
  have tkz: "topk_ok T_zero (nat (k rule_ex)) (topk_stable T_zero (nat (k rule_ex)))"
    using zero_topk by (simp add: ex_rule)
  from update_normalized [where topk = topk_stable,
      OF ex_facts ex_rule(1,2) ex_prec ex_tot tk ex_act ex_raw] ex_big
  have one: "\<exists>d. update topk_stable rule_ex X_ex W_ex = Inr d \<and> max_t (abs_t d) = Inr 1"
    by blast
  from update_normalized [where topk = topk_stable,
      OF zero_facts(1) ex_facts(2) zero_facts(2-4) ex_rule(1,2) ex_prec zero_tot tkz
        zero_act zero_raw] zero_small
  have two: "update topk_stable rule_ex X_zero W_ex = Inr (true_divide ds_zero (precision rule_ex))"
    by blast
  have small: "list_all (\<lambda>x. \<bar>x\<bar> < precision rule_ex) (concat (rows ds_zero))"
    using zero_small by (simp only: list_all_iff)
  show ?thesis
    using ex_facts zero_facts ex_rule(1,2) ex_prec ex_tot ex_topk ex_act ex_raw ex_big one
      zero_tot zero_topk zero_act zero_raw small two
    by blast
qed

section \<open>The training step and the training loop\<close>

lemma update_call_tensors:
  "update_call topk self (Tensor x) (Tensor w)
     = (case update topk self x w of Inl e \<Rightarrow> Inl e | Inr d_w \<Rightarrow> Inr (Tensor d_w))"
  by (simp add: update_call_def update_def Let_def)

lemma update_call_ndarray:
  "update_call topk self (Tensor x) (Ndarray w)
     = Inl (if nrows x = 0 then IndexError
            else if int (nrows w) < k self then AssertionError assert_msg
            else TypeError)"
  by (simp add: update_call_def)

text \<open>
  C7. When the batch has no samples, or \<open>k\<close> exceeds the number of hidden units, the
  training step ends with an error and the engine's state, the weight tensor included,
  is the one before the call: \<open>local_step\<close> is not reached. Without samples the error is
  the ValueError of \<open>np.reshape\<close> (line 24, before the rule is called); otherwise it is
  the AssertionError of \<open>update\<close> with its message.
\<close>

theorem train_step_aborts:
  assumes "nrows (samples inputs) = 0 \<or> int (nrows (weight s)) < k learning_rule"
  shows "train_step topk learning_rule local_step inputs s
           = (Some (if nrows (samples inputs) = 0 then ValueError
                    else AssertionError assert_msg), s)"
  using assms by (auto simp: train_step_def np_reshape_def update_call_ndarray)

theorem train_step_aborts_witness:
  "(nrows (samples batch_empty) = 0 \<or> int (nrows (weight engine_ex)) < k rule_ex)
   \<and> train_step topk_stable rule_ex local_step_ex batch_empty engine_ex
        = (Some ValueError, engine_ex)
   \<and> (nrows (samples batch_ex) = 0 \<or> int (nrows (weight engine_ex))
          < k (KrotovsRule_init (1 / 10 ^ 30) (2 / 5) 3 4))
   \<and> train_step topk_stable (KrotovsRule_init (1 / 10 ^ 30) (2 / 5) 3 4) local_step_ex
          batch_ex engine_ex
        = (Some (AssertionError assert_msg), engine_ex)
   \<and> weight (snd (train_step topk_stable (KrotovsRule_init (1 / 10 ^ 30) (2 / 5) 3 4)
          local_step_ex batch_ex engine_ex)) = W_ex"
proof -
  have a: "nrows (samples batch_empty) = 0 \<or> int (nrows (weight engine_ex)) < k rule_ex"
    by (simp add: batch_empty_def X_empty_def)
  have b: "nrows (samples batch_ex) = 0 \<or> int (nrows (weight engine_ex))
          < k (KrotovsRule_init (1 / 10 ^ 30) (2 / 5) 3 4)"
    by (simp add: engine_ex_def W_ex_def KrotovsRule_init_def)
  have c: "nrows (samples batch_empty) = 0" "nrows (samples batch_ex) \<noteq> 0"
    "weight engine_ex = W_ex"
    by (simp_all add: batch_empty_def X_empty_def batch_ex_def X_ex_def engine_ex_def)
  from train_step_aborts [OF a, of topk_stable local_step_ex]
    train_step_aborts [OF b, of topk_stable local_step_ex] a b c
  show ?thesis by simp
qed

text \<open>
  The training step never reaches \<open>local_step\<close>: the weight goes to the rule as a numpy
  array, and on a batch with samples and \<open>k\<close> within the hidden units \<open>torch.sign\<close> raises
  TypeError. So every call ends with an error and the state it started from.
\<close>

lemma train_step_raises:
  "train_step topk learning_rule local_step inputs s
     = (Some (if nrows (samples inputs) = 0 then ValueError
              else if int (nrows (weight s)) < k learning_rule
              then AssertionError assert_msg
              else TypeError), s)"
  by (simp add: train_step_def np_reshape_def update_call_ndarray)

lemma train_batches_raises:
  "\<exists>e. train_batches topk learning_rule local_step visualizer step (b # bs) s = (Some e, s)"
  by (simp add: train_step_raises)

lemma train_epoch_raises:
  assumes "data_loader \<noteq> []"
  shows "\<exists>e s'. train_epoch topk learning_rule local_step eval_fn visualizer data_loader
              eval_every checkpoint_every epoch s = (Some e, s')
           \<and> weight s' = weight s \<and> lr_scheduler s' = lr_scheduler s
           \<and> filter is_eval (events s') = filter is_eval (events s)
           \<and> filter is_checkpoint (events s') = filter is_checkpoint (events s)"
proof -
  from assms obtain b bs where d: "data_loader = b # bs" by (cases data_loader) auto
  show ?thesis
    unfolding train_epoch_def Let_def d
    by (simp add: train_step_raises)
qed

text \<open>
  So a call of \<open>train\<close> with at least one epoch never returns the model: it ends with an
  error, in the first training step at the latest. However it ends, the schedule is the
  one it started with, and neither the evaluator nor the checkpoint sink was called.
\<close>

lemma train_raises:
  assumes "0 < epochs"
  shows "\<exists>e. fst (train topk learning_rule local_step eval_fn visualizer data_loader w0 epochs
                    eval_every checkpoint_every s) = Some e"
proof (cases data_loader)
  case Nil
  then show ?thesis by (simp add: train_def)
next
  case (Cons b bs)
  from assms obtain n where n: "nat epochs = Suc n" by (cases "nat epochs") auto
  have u: "[0..<Suc n] = 0 # [1..<Suc n]" by (simp add: upt_conv_Cons)
  have ne: "data_loader \<noteq> []" using Cons by simp
  show ?thesis
  proof (cases "length (dims b) = 4")
    case False
    then show ?thesis by (simp add: train_def Cons)
  next
    case True
    obtain s0 where s0: "s0 = (let s = s\<lparr>weight := w0\<rparr> in
        if visualizer then s\<lparr>events := events s @ [VisualizeWeights 0]\<rparr> else s)" by simp
    from train_epoch_raises [OF ne, of topk learning_rule local_step eval_fn visualizer
        eval_every checkpoint_every 0 s0]
    obtain e s' where "train_epoch topk learning_rule local_step eval_fn visualizer data_loader
              eval_every checkpoint_every 0 s0 = (Some e, s')" by blast
    then have "fst (train_epochs topk learning_rule local_step eval_fn visualizer data_loader
                 eval_every checkpoint_every [0..<nat epochs] s0) = Some e"
      unfolding n u by simp
    then show ?thesis
      using True by (simp add: train_def Cons [symmetric] s0 Let_def split: list.splits)
  qed
qed

lemma train_epochs_frame:
  assumes "data_loader \<noteq> []"
  shows "lr_scheduler (snd (train_epochs topk learning_rule local_step eval_fn visualizer
              data_loader eval_every checkpoint_every es s)) = lr_scheduler s
         \<and> filter is_eval (events (snd (train_epochs topk learning_rule local_step eval_fn
              visualizer data_loader eval_every checkpoint_every es s)))
             = filter is_eval (events s)
         \<and> filter is_checkpoint (events (snd (train_epochs topk learning_rule local_step eval_fn
              visualizer data_loader eval_every checkpoint_every es s)))
             = filter is_checkpoint (events s)"
proof (cases es)
  case Nil
  then show ?thesis by simp
next
  case (Cons e rest)
  from train_epoch_raises [OF assms, of topk learning_rule local_step eval_fn visualizer
      eval_every checkpoint_every e s]
  show ?thesis unfolding Cons by auto
qed

lemma train_frame:
  "lr_scheduler (snd (train topk learning_rule local_step eval_fn visualizer data_loader w0
       epochs eval_every checkpoint_every s)) = lr_scheduler s
   \<and> filter is_eval (events (snd (train topk learning_rule local_step eval_fn visualizer
       data_loader w0 epochs eval_every checkpoint_every s))) = filter is_eval (events s)
   \<and> filter is_checkpoint (events (snd (train topk learning_rule local_step eval_fn visualizer
       data_loader w0 epochs eval_every checkpoint_every s)))
       = filter is_checkpoint (events s)"
proof (cases data_loader)
  case Nil
  then show ?thesis by (simp add: train_def)
next
  case (Cons b bs)
  then have ne: "data_loader \<noteq> []" by simp
  show ?thesis
  proof (cases "length (dims b) = 4")
    case False
    then show ?thesis by (simp add: train_def Cons)
  next
    case True
    show ?thesis
    proof (cases visualizer)
      case True
      from train_epochs_frame [OF ne, of topk learning_rule local_step eval_fn visualizer
          eval_every checkpoint_every "[0..<nat epochs]"
          "s\<lparr>weight := w0, events := events s @ [VisualizeWeights 0]\<rparr>"]
      show ?thesis
        using \<open>length (dims b) = 4\<close> True
        by (simp add: train_def Cons [symmetric] Let_def split: list.splits)
    next
      case False
      from train_epochs_frame [OF ne, of topk learning_rule local_step eval_fn visualizer
          eval_every checkpoint_every "[0..<nat epochs]" "s\<lparr>weight := w0\<rparr>"]
      show ?thesis
        using \<open>length (dims b) = 4\<close> False
        by (simp add: train_def Cons [symmetric] Let_def split: list.splits)
    qed
  qed
qed

lemma upt_4: "[0..<4] = [0, 1, 2, 3::nat]"
  by code_simp

lemma ex_train_step:
  "weight s = W_ex \<Longrightarrow>
     train_step topk_stable rule_ex local_step_ex batch_ex s = (Some TypeError, s)"
  by (simp add: train_step_raises batch_ex_def X_ex_def W_ex_def rule_ex_def
      KrotovsRule_init_def)

text \<open>
  C8. The run of four epochs with \<open>eval_every = 2\<close> and no checkpoint interval, over one
  batch of two samples with \<open>k = 2\<close> and three hidden units, without a visualizer: the
  learning rate is read, the first training step raises TypeError, and \<open>train\<close> ends
  there. The evaluator is not called, where two calls are expected, and no checkpoint
  is written.
\<close>

theorem train_run_raises:
  "run_ex = (Some TypeError, engine_ex\<lparr>events := [GetLastLr (1 / 25)]\<rparr>)
   \<and> filter is_eval (events (snd run_ex)) = []
   \<and> filter is_checkpoint (events (snd run_ex)) = []"
proof -
  have s: "engine_ex\<lparr>weight := W_ex\<rparr> = engine_ex" by (simp add: engine_ex_def)
  have l: "get_last_lr (lr_scheduler engine_ex) = 1 / 25"
    by (simp add: engine_ex_def get_last_lr_def LambdaLR_init_def main_lr_lambda_def)
  have e: "events engine_ex = []" by (simp add: engine_ex_def)
  have w: "weight (engine_ex\<lparr>events := [GetLastLr (1 / 25)]\<rparr>) = W_ex"
    by (simp add: engine_ex_def)
  have d: "length (dims batch_ex) = 4" by (simp add: batch_ex_def)
  have r: "run_ex = (Some TypeError, engine_ex\<lparr>events := [GetLastLr (1 / 25)]\<rparr>)"
    unfolding run_ex_def train_def
    by (simp add: d s upt_4 train_epoch_def l e ex_train_step [OF w])
  show ?thesis unfolding r by (simp add: e)
qed

text \<open>
  C9. The run as \<open>main\<close> sets it up, with a visualizer and the schedule
  \<open>1 - epoch / epochs\<close> over four epochs from the rate 1/25: the weights are shown, the
  rate of epoch 0 is read twice (for the log and for the visualizer) and is the base
  rate, then the first training step raises TypeError and \<open>train\<close> ends there. The
  schedule is never advanced and no later epoch starts.
\<close>

theorem train_main_run_raises:
  "main_lr_scheduler (1 / 25) 4 = Inr (lr_scheduler engine_ex)
   \<and> run_main_ex
       = (Some TypeError,
          engine_ex\<lparr>events := [VisualizeWeights 0, GetLastLr (1 / 25), GetLastLr (1 / 25),
                                AddScalar (1 / 25) 0]\<rparr>)
   \<and> last_epoch (lr_scheduler (snd run_main_ex)) = 0
   \<and> filter (\<lambda>ev. ev = SchedulerStep) (events (snd run_main_ex)) = []"
proof -
  have m: "main_lr_scheduler (1 / 25) 4 = Inr (lr_scheduler engine_ex)"
    by (simp add: main_lr_scheduler_def engine_ex_def)
  have s: "engine_ex\<lparr>weight := W_ex\<rparr> = engine_ex" by (simp add: engine_ex_def)
  have l: "get_last_lr (lr_scheduler engine_ex) = 1 / 25"
    by (simp add: engine_ex_def get_last_lr_def LambdaLR_init_def main_lr_lambda_def)
  have e: "events engine_ex = []" by (simp add: engine_ex_def)
  have w: "weight (engine_ex\<lparr>events := [VisualizeWeights 0, GetLastLr (1 / 25),
              GetLastLr (1 / 25), AddScalar (1 / 25) 0]\<rparr>) = W_ex"
    by (simp add: engine_ex_def)
  have d: "length (dims batch_ex) = 4" by (simp add: batch_ex_def)
  have r: "run_main_ex
       = (Some TypeError,
          engine_ex\<lparr>events := [VisualizeWeights 0, GetLastLr (1 / 25), GetLastLr (1 / 25),
                                AddScalar (1 / 25) 0]\<rparr>)"
    unfolding run_main_ex_def train_def
    by (simp add: d s upt_4 train_epoch_def l e ex_train_step [OF w])
  have z: "last_epoch (lr_scheduler engine_ex) = 0"
    by (simp add: engine_ex_def LambdaLR_init_def)
  show ?thesis unfolding r using m z by (simp add: e)
qed

section \<open>The effect of the rule on the tensors of its caller\<close>

lemma index_put_at_last:
  "index_put_at (st @ [A]) (length st) is js v
     = (case index_put A is js v of Inl e \<Rightarrow> Inl e | Inr A' \<Rightarrow> Inr (st @ [A']))"
  by (simp add: index_put_at_def split: sum.splits)

lemma update_store_update:
  assumes "a_inputs < length st" and "a_weights < length st"
  shows "fst (update_store topk self a_inputs a_weights st)
           = update topk self (st ! a_inputs) (st ! a_weights)
       \<and> (\<exists>ext. snd (update_store topk self a_inputs a_weights st) = st @ ext)"
  using assms
  unfolding update_store_def update_def activations_topk_def Let_def
  by (simp add: index_put_at_last nth_append split: sum.splits)

lemma update_Inr_shape:
  assumes X: "wf_tensor inputs" and W: "wf_tensor weights"
    and upd: "update topk self inputs weights = Inr d"
    and contract: "\<forall>T. tot_input self (torch_t inputs) weights = Inr T
                     \<longrightarrow> topk_ok T (nat (k self)) (topk T (nat (k self)))"
  shows "wf_tensor d \<and> nrows d = nrows weights \<and> ncols d = ncols weights"
proof -
  have B: "0 < nrows inputs"
    using upd by (cases "nrows inputs = 0") (simp_all add: update_def)
  have kH: "k self \<le> int (nrows weights)"
    using upd B by (cases "k self \<le> int (nrows weights)") (simp_all add: update_def Let_def)
  obtain T where T: "tot_input self (torch_t inputs) weights = Inr T"
    using upd B kH
    by (cases "tot_input self (torch_t inputs) weights") (simp_all add: update_def Let_def)
  have D: "ncols weights = ncols inputs"
    using T by (simp add: tot_input_def matmul_def mul_def zip_with_def sign_def tmap_def
        torch_t_def split: if_splits)
  from contract T have tk: "topk_ok T (nat (k self)) (topk T (nat (k self)))" by blast
  obtain A where A: "activations_topk topk self T (nrows weights) (nrows inputs) = Inr A"
    using upd B kH T
    by (cases "activations_topk topk self T (nrows weights) (nrows inputs)")
       (simp_all add: update_def Let_def)
  have k1: "1 \<le> k self"
  proof (rule ccontr)
    assume "\<not> 1 \<le> k self"
    then have "k self < 0 \<or> k self = 0" by linarith
    then show False
    proof
      assume "k self < 0"
      with A show False by (simp add: activations_topk_def)
    next
      assume k0: "k self = 0"
      with tk have "topk T 0 = []" by (simp add: topk_ok_def)
      with A k0 show False by (simp add: activations_topk_def py_index_def)
    qed
  qed
  from update_stages [where topk = topk, OF X W D B k1 kH T tk] upd
  obtain ds where ds: "normalize self ds = Inr d" "wf_tensor ds" "nrows ds = nrows weights"
      "ncols ds = ncols inputs"
    by auto
  from ds(1) obtain c where "d = true_divide ds c"
    by (auto simp: normalize_def Let_def split: sum.splits)
  with ds(2-4) D show ?thesis
    by (simp add: true_divide_def tmap_wf tmap_shape)
qed

text \<open>
  C10. \<open>update\<close> leaves every tensor of the caller, \<open>inputs\<close> and \<open>weights\<close> among them,
  as it was; its result depends on the values of \<open>inputs\<close> and \<open>weights\<close> (and on the rule's
  hyperparameters) only, not on where they are held or on anything else in the store;
  and a delta it returns has the shape of the weights.
\<close>

theorem update_pure:
  assumes "a_inputs < length st" and "a_weights < length st"
    and "a_inputs' < length st'" and "a_weights' < length st'"
    and "st' ! a_inputs' = st ! a_inputs" and "st' ! a_weights' = st ! a_weights"
  shows "(\<forall>a<length st. snd (update_store topk self a_inputs a_weights st) ! a = st ! a)
       \<and> fst (update_store topk self a_inputs' a_weights' st')
           = fst (update_store topk self a_inputs a_weights st)
       \<and> (\<forall>d. fst (update_store topk self a_inputs a_weights st) = Inr d
              \<and> wf_tensor (st ! a_inputs) \<and> wf_tensor (st ! a_weights)
              \<and> (\<forall>T. tot_input self (torch_t (st ! a_inputs)) (st ! a_weights) = Inr T
                     \<longrightarrow> topk_ok T (nat (k self)) (topk T (nat (k self))))
              \<longrightarrow> wf_tensor d \<and> nrows d = nrows (st ! a_weights)
                    \<and> ncols d = ncols (st ! a_weights))"
proof (intro conjI allI impI)
  from update_store_update [OF assms(1,2), of topk self]
  obtain ext where r: "fst (update_store topk self a_inputs a_weights st)
           = update topk self (st ! a_inputs) (st ! a_weights)"
    and e: "snd (update_store topk self a_inputs a_weights st) = st @ ext"
    by blast
  from update_store_update [OF assms(3,4), of topk self]
  have r': "fst (update_store topk self a_inputs' a_weights' st')
           = update topk self (st' ! a_inputs') (st' ! a_weights')"
    by blast
  show "fst (update_store topk self a_inputs' a_weights' st')
           = fst (update_store topk self a_inputs a_weights st)"
    by (simp add: r r' assms(5,6))
  {
    fix a assume "a < length st"
    then show "snd (update_store topk self a_inputs a_weights st) ! a = st ! a"
      by (simp add: e nth_append)
  }
  {
    fix d
    assume h: "fst (update_store topk self a_inputs a_weights st) = Inr d
              \<and> wf_tensor (st ! a_inputs) \<and> wf_tensor (st ! a_weights)
              \<and> (\<forall>T. tot_input self (torch_t (st ! a_inputs)) (st ! a_weights) = Inr T
                     \<longrightarrow> topk_ok T (nat (k self)) (topk T (nat (k self))))"
    then have u: "update topk self (st ! a_inputs) (st ! a_weights) = Inr d" by (simp add: r)
    from h have X: "wf_tensor (st ! a_inputs)" and W: "wf_tensor (st ! a_weights)"
      and c: "\<forall>T. tot_input self (torch_t (st ! a_inputs)) (st ! a_weights) = Inr T
                     \<longrightarrow> topk_ok T (nat (k self)) (topk T (nat (k self)))"
      by blast+
    from update_Inr_shape [where topk = topk, OF X W u c]
    show "wf_tensor d" and "nrows d = nrows (st ! a_weights)"
      and "ncols d = ncols (st ! a_weights)"
      by blast+
  }
qed

lemma ex_update: "update topk_stable rule_ex X_ex W_ex = Inr d_ex"
  by code_simp

theorem update_pure_witness:
  "(0::nat) < length store_ex \<and> (1::nat) < length store_ex
   \<and> (2::nat) < length store_ex' \<and> (0::nat) < length store_ex'
   \<and> store_ex' ! 2 = store_ex ! 0 \<and> store_ex' ! 0 = store_ex ! 1
   \<and> snd (update_store topk_stable rule_ex 0 1 store_ex) ! 0 = X_ex
   \<and> snd (update_store topk_stable rule_ex 0 1 store_ex) ! 1 = W_ex
   \<and> fst (update_store topk_stable rule_ex 2 0 store_ex')
       = fst (update_store topk_stable rule_ex 0 1 store_ex)
   \<and> fst (update_store topk_stable rule_ex 0 1 store_ex) = Inr d_ex
   \<and> wf_tensor d_ex \<and> nrows d_ex = nrows W_ex \<and> ncols d_ex = ncols W_ex"
proof -
  have a: "(0::nat) < length store_ex" "(1::nat) < length store_ex"
    "(2::nat) < length store_ex'" "(0::nat) < length store_ex'"
    "store_ex' ! 2 = store_ex ! 0" "store_ex' ! 0 = store_ex ! 1"
    by (simp_all add: store_ex_def store_ex'_def)
  have v0: "store_ex ! 0 = X_ex" by (simp add: store_ex_def)
  have v1: "store_ex ! 1 = W_ex" by (simp add: store_ex_def)
  have u0: "fst (update_store topk_stable rule_ex 0 1 store_ex)
              = update topk_stable rule_ex (store_ex ! 0) (store_ex ! 1)"
    using update_store_update [OF a(1,2), of topk_stable rule_ex] by (rule conjunct1)
  have u: "fst (update_store topk_stable rule_ex 0 1 store_ex) = Inr d_ex"
    unfolding u0 v0 v1 by (rule ex_update)
  have k2: "nat (k rule_ex) = 2" by (simp add: ex_rule)
  have c: "\<forall>T. tot_input rule_ex (torch_t (store_ex ! 0)) (store_ex ! 1) = Inr T
                     \<longrightarrow> topk_ok T (nat (k rule_ex)) (topk_stable T (nat (k rule_ex)))"
    unfolding v0 v1 k2 using ex_topk by (simp add: ex_tot)
  have wX: "wf_tensor (store_ex ! 0)" unfolding v0 by (rule ex_facts(1))
  have wW: "wf_tensor (store_ex ! 1)" unfolding v1 by (rule ex_facts(2))
  note p = update_pure [OF a, of topk_stable rule_ex]
  from p have f: "\<forall>a<length store_ex.
      snd (update_store topk_stable rule_ex 0 1 store_ex) ! a = store_ex ! a"
    by (rule conjunct1)
  from p have g: "fst (update_store topk_stable rule_ex 2 0 store_ex')
       = fst (update_store topk_stable rule_ex 0 1 store_ex)"
    by (rule conjunct1 [OF conjunct2])
  from p have h: "\<forall>d. fst (update_store topk_stable rule_ex 0 1 store_ex) = Inr d
              \<and> wf_tensor (store_ex ! 0) \<and> wf_tensor (store_ex ! 1)
              \<and> (\<forall>T. tot_input rule_ex (torch_t (store_ex ! 0)) (store_ex ! 1) = Inr T
                     \<longrightarrow> topk_ok T (nat (k rule_ex)) (topk_stable T (nat (k rule_ex))))
              \<longrightarrow> wf_tensor d \<and> nrows d = nrows (store_ex ! 1)
                    \<and> ncols d = ncols (store_ex ! 1)"
    by (rule conjunct2 [OF conjunct2])
  from f a(1) have f0: "snd (update_store topk_stable rule_ex 0 1 store_ex) ! 0 = X_ex"
    unfolding v0 [symmetric] by blast
  from f a(2) have f1: "snd (update_store topk_stable rule_ex 0 1 store_ex) ! 1 = W_ex"
    unfolding v1 [symmetric] by blast
  from h u wX wW c have "wf_tensor d_ex \<and> nrows d_ex = nrows (store_ex ! 1)
                    \<and> ncols d_ex = ncols (store_ex ! 1)"
    by blast
  then have s: "wf_tensor d_ex \<and> nrows d_ex = nrows W_ex \<and> ncols d_ex = ncols W_ex"
    unfolding v1 .
  from a f0 f1 g u s show ?thesis by blast
qed

end
